theory Spec2Isabelle
  imports Complex_Main
begin

section \<open>Data model of the download engine\<close>

text \<open>
  The engine is Go code. Its \<open>int64\<close> and \<open>int\<close> values are modelled as \<open>int\<close>.
  Where the code adds to a byte counter or computes the bounds of a chunk, the
  two's complement wrap-around of the 64-bit operation is written out
  (\<open>wrap64\<close>); \<open>activeDownloads\<close>, an \<open>int32\<close> that moves by one per running
  download, is left unbounded. A \<open>time.Time\<close> is an instant: the number of
  nanoseconds since the zero value of \<open>time.Time\<close>, so that \<open>IsZero\<close> is \<open>t = 0\<close>;
  a \<open>time.Duration\<close> is a number of nanoseconds; the zone a time carries is not
  modelled. \<open>float64\<close> arithmetic is idealised as exact arithmetic on \<open>real\<close>.
  The network, the file system and the clock are arguments: what a call into
  them returned. The table is modelled on a working database file: a statement
  fails only for the reasons its data gives (no such row, NULL scanned into a
  string).
\<close>

type_synonym time = int

definition wrap64 :: "int \<Rightarrow> int" where
  "wrap64 x = (x + 2 ^ 63) mod 2 ^ 64 - 2 ^ 63"

text \<open>Go's \<open>/\<close> on integers truncates towards zero; HOL's \<open>div\<close> rounds down.\<close>

definition go_quot :: "int \<Rightarrow> int \<Rightarrow> int" where
  "go_quot a b =
     (if (a < 0) = (b < 0) then \<bar>a\<bar> div \<bar>b\<bar> else - (\<bar>a\<bar> div \<bar>b\<bar>))"

subsection \<open>storage: status, record, table\<close>

text \<open>
  \<open>type DownloadStatus int\<close> with the \<open>iota\<close> constants. The status is an integer
  in the code and in the table, so it is one here.
\<close>

type_synonym DownloadStatus = int

definition StatusPending :: DownloadStatus where "StatusPending = 0"
definition StatusDownloading :: DownloadStatus where "StatusDownloading = 1"
definition StatusPaused :: DownloadStatus where "StatusPaused = 2"
definition StatusCompleted :: DownloadStatus where "StatusCompleted = 3"
definition StatusFailed :: DownloadStatus where "StatusFailed = 4"
definition StatusCancelled :: DownloadStatus where "StatusCancelled = 5"

record Download =
  ID :: int
  URL :: string
  Filename :: string
  Path :: string
  Size :: int
  Downloaded :: int
  Status :: DownloadStatus
  Speed :: int
  Progress :: real
  CreatedAt :: time
  StartedAt :: "time option"
  CompletedAt :: "time option"
  Error :: string
  Chunks :: int

text \<open>
  The errors and panics the modelled code can end in. \<open>err_msg\<close> is \<open>err.Error()\<close>
  (for \<open>ErrScanNull\<close> the cause that \<open>Scan\<close> wraps; \<open>ErrOther\<close> carries the text of
  a network or file error).
\<close>

datatype go_error =
    ErrNoRows
  | ErrScanNull
  | ErrTableFull
  | ErrAlreadyInProgress
  | ErrNotFound
  | ErrCanceled
  | EOF
  | ErrOther string
  | PanicNilDeref
  | PanicDivideByZero
  | PanicMakeChan
  | PanicTickerInterval

fun err_msg :: "go_error \<Rightarrow> string" where
  "err_msg ErrNoRows = ''sql: no rows in result set''"
| "err_msg ErrScanNull = ''converting NULL to string is unsupported''"
| "err_msg ErrTableFull = ''database or disk is full''"
| "err_msg ErrAlreadyInProgress = ''download already in progress''"
| "err_msg ErrNotFound = ''download not found''"
| "err_msg ErrCanceled = ''context canceled''"
| "err_msg EOF = ''EOF''"
| "err_msg (ErrOther s) = s"
| "err_msg PanicNilDeref = ''invalid memory address or nil pointer dereference''"
| "err_msg PanicDivideByZero = ''integer divide by zero''"
| "err_msg PanicMakeChan = ''makechan: size out of range''"
| "err_msg PanicTickerInterval = ''non-positive interval for NewTicker''"

text \<open>
  A row of the table \<open>downloads\<close> (\<open>createTables\<close>). The columns \<open>started_at\<close>,
  \<open>completed_at\<close> and \<open>error\<close> have no default and may hold NULL (\<open>None\<close>);
  the other columns are written by every INSERT of the code or have a default.
\<close>

record row =
  col_url :: string
  col_filename :: string
  col_path :: string
  col_size :: int
  col_downloaded :: int
  col_status :: int
  col_speed :: int
  col_progress :: real
  col_created_at :: time
  col_started_at :: "time option"
  col_completed_at :: "time option"
  col_error :: "string option"
  col_chunks :: int

text \<open>
  The table: its rows, each with its \<open>id\<close> (the rowid), in the order they were
  inserted, and \<open>seq\<close>, the largest id AUTOINCREMENT has handed out (the table's
  entry in \<open>sqlite_sequence\<close>). \<open>rows\<close> is the query by id: the first row with
  that id (\<open>id\<close> is the primary key, so a table has one at most).
\<close>

record database =
  entries :: "(int \<times> row) list"
  seq :: int

definition rows :: "database \<Rightarrow> int \<rightharpoonup> row" where
  "rows d = map_of (entries d)"

text \<open>
  The id of a new row, as SQLite chooses it for an \<open>INTEGER PRIMARY KEY
  AUTOINCREMENT\<close>: one more than the largest rowid in the table (1 for an empty
  table), raised to \<open>seq + 1\<close> when that is larger, so that no id is handed out
  twice. When the largest rowid or \<open>seq\<close> has reached the largest \<open>int64\<close> the
  INSERT fails (\<open>SQLITE_FULL\<close>).
\<close>

fun largest_rowid :: "(int \<times> row) list \<Rightarrow> int option" where
  "largest_rowid [] = None"
| "largest_rowid ((k, r) # rest) =
     (case largest_rowid rest of None \<Rightarrow> Some k | Some m \<Rightarrow> Some (max k m))"

definition max_rowid :: int where
  "max_rowid = 2 ^ 63 - 1"

definition new_rowid :: "database \<Rightarrow> go_error + int" where
  "new_rowid d =
     (case largest_rowid (entries d) of
        None \<Rightarrow>
          if seq d = max_rowid then Inl ErrTableFull else Inr (max 1 (seq d + 1))
      | Some m \<Rightarrow>
          if max_rowid \<le> m then Inl ErrTableFull
          else if seq d = max_rowid then Inl ErrTableFull
          else Inr (max (m + 1) (seq d + 1)))"

text \<open>
  \<open>SaveDownload\<close>: the INSERT names url, filename, path, size, downloaded, status,
  chunks and created_at. The columns it does not name take their defaults:
  speed 0, progress 0, and NULL for started_at, completed_at and error.
  The result is the new table and \<open>LastInsertId\<close>, or the table as it was and the
  error of \<open>Exec\<close>.
\<close>

definition SaveDownload :: "database \<Rightarrow> Download \<Rightarrow> database \<times> (go_error + int)" where
  "SaveDownload d download =
     (case new_rowid d of
        Inl err \<Rightarrow> (d, Inl err)
      | Inr ident \<Rightarrow>
          (let r = \<lparr>col_url = URL download, col_filename = Filename download,
                    col_path = Path download, col_size = Size download,
                    col_downloaded = Downloaded download, col_status = Status download,
                    col_speed = 0, col_progress = 0,
                    col_created_at = CreatedAt download,
                    col_started_at = None, col_completed_at = None, col_error = None,
                    col_chunks = Chunks download\<rparr>
           in (d\<lparr>entries := entries d @ [(ident, r)], seq := ident\<rparr>, Inr ident)))"

text \<open>
  \<open>UpdateDownload\<close>: the UPDATE sets downloaded, status, speed, progress,
  started_at, completed_at and error in every row with the record's id; a nil
  \<open>*time.Time\<close> is stored as NULL, the Go string \<open>Error\<close> always as text.
  With no such row the statement changes nothing (and reports no error).
\<close>

definition set_columns :: "Download \<Rightarrow> row \<Rightarrow> row" where
  "set_columns download r =
     r\<lparr>col_downloaded := Downloaded download, col_status := Status download,
       col_speed := Speed download, col_progress := Progress download,
       col_started_at := StartedAt download,
       col_completed_at := CompletedAt download,
       col_error := Some (Error download)\<rparr>"

definition UpdateDownload :: "database \<Rightarrow> Download \<Rightarrow> database" where
  "UpdateDownload d download =
     d\<lparr>entries := map (\<lambda>(k, r). if k = ID download then (k, set_columns download r) else (k, r))
                       (entries d)\<rparr>"

text \<open>
  \<open>GetDownload\<close>: \<open>QueryRow\<close> and \<open>Scan\<close>. With no row, \<open>Scan\<close> returns
  \<open>sql.ErrNoRows\<close>. The two timestamps are scanned through \<open>sql.NullTime\<close>, the
  column \<open>error\<close> straight into the Go string \<open>download.Error\<close>: \<open>database/sql\<close>
  refuses to convert NULL into a string, so \<open>Scan\<close> returns an error for a row
  whose \<open>error\<close> is NULL and \<open>GetDownload\<close> returns \<open>nil, err\<close>.
\<close>

definition GetDownload :: "database \<Rightarrow> int \<Rightarrow> go_error + Download" where
  "GetDownload d ident =
     (case rows d ident of
        None \<Rightarrow> Inl ErrNoRows
      | Some r \<Rightarrow>
          (case col_error r of
             None \<Rightarrow> Inl ErrScanNull
           | Some e \<Rightarrow>
               Inr \<lparr>ID = ident, URL = col_url r, Filename = col_filename r,
                    Path = col_path r, Size = col_size r,
                    Downloaded = col_downloaded r, Status = col_status r,
                    Speed = col_speed r, Progress = col_progress r,
                    CreatedAt = col_created_at r, StartedAt = col_started_at r,
                    CompletedAt = col_completed_at r, Error = e,
                    Chunks = col_chunks r\<rparr>))"

subsection \<open>core: the queue\<close>

text \<open>
  \<open>Queue.items\<close> is a slice of records. \<open>Add\<close> appends. \<open>Next\<close> walks the slice
  by index, and at the first index \<open>i\<close> whose record is pending it removes that
  element (\<open>append(items[:i], items[i+1:]...)\<close>) and returns it; \<open>nil\<close> when the
  loop ends.
\<close>

type_synonym Queue = "Download list"

definition NewQueue :: Queue where
  "NewQueue = []"

definition Queue_Add :: "Queue \<Rightarrow> Download \<Rightarrow> Queue" where
  "Queue_Add items download = items @ [download]"

fun first_pending :: "nat \<Rightarrow> Download list \<Rightarrow> nat option" where
  "first_pending i [] = None"
| "first_pending i (download # rest) =
     (if Status download = StatusPending then Some i else first_pending (Suc i) rest)"

definition Queue_Next :: "Queue \<Rightarrow> Download option \<times> Queue" where
  "Queue_Next items =
     (case first_pending 0 items of
        None \<Rightarrow> (None, items)
      | Some i \<Rightarrow> (Some (items ! i), take i items @ drop (Suc i) items))"

subsection \<open>core: configuration, jobs, the manager\<close>

record DownloadConfig =
  MaxConcurrentDownloads :: int
  ChunkSize :: int
  MaxSpeed :: int
  RetryAttempts :: int
  UserAgent :: string
  Timeout :: int

definition DefaultConfig :: DownloadConfig where
  "DefaultConfig =
     \<lparr>MaxConcurrentDownloads = 3, ChunkSize = 1024 * 1024, MaxSpeed = 0,
      RetryAttempts = 3, UserAgent = ''IDM-Go/1.0'', Timeout = 30 * 1000000000\<rparr>"

text \<open>
  A \<open>ChunkDownloader\<close> owns the byte range \<open>[start, end]\<close> of the output file.
  The file handle it shares with the other chunks is not modelled: of a write
  only its result (an error or none) is.
\<close>

record ChunkDownloader =
  c_start :: int
  c_end :: int
  c_downloaded :: int

text \<open>
  A \<open>DownloadJob\<close>: the record \<open>job.download\<close> points to, whether the job's
  context has been cancelled, the timeout of its HTTP client, its chunks and
  the time of the last statistics update.
\<close>

record DownloadJob =
  download :: Download
  ctx_done :: bool
  client_timeout :: int
  chunks :: "ChunkDownloader list"
  lastUpdate :: time

text \<open>
  The manager. Jobs are heap objects shared by the registry
  (\<open>map[int64]*DownloadJob\<close>) and the goroutine that runs them, so the state
  holds a store of jobs by address (\<open>jobs\<close>, \<open>next_job\<close> the next free address)
  and the registry \<open>downloads\<close> maps an id to an address. \<open>events\<close> lists the
  records handed to \<open>notifyCallbacks\<close>, oldest first.
\<close>

record DownloadManager =
  db :: database
  config :: DownloadConfig
  jobs :: "nat \<Rightarrow> DownloadJob"
  next_job :: nat
  downloads :: "int \<rightharpoonup> nat"
  queue :: Queue
  activeDownloads :: int
  events :: "Download list"

definition zero_Download :: Download where
  "zero_Download =
     \<lparr>ID = 0, URL = [], Filename = [], Path = [], Size = 0, Downloaded = 0,
      Status = 0, Speed = 0, Progress = 0, CreatedAt = 0, StartedAt = None,
      CompletedAt = None, Error = [], Chunks = 0\<rparr>"

definition zero_job :: DownloadJob where
  "zero_job =
     \<lparr>download = zero_Download, ctx_done = False, client_timeout = 0,
      chunks = [], lastUpdate = 0\<rparr>"

definition NewDownloadManager :: "database \<Rightarrow> DownloadManager" where
  "NewDownloadManager d =
     \<lparr>db = d, config = DefaultConfig, jobs = (\<lambda>a. zero_job), next_job = 0,
      downloads = Map.empty, queue = NewQueue, activeDownloads = 0, events = []\<rparr>"

definition updateDownload :: "DownloadManager \<Rightarrow> Download \<Rightarrow> DownloadManager" where
  "updateDownload dm d = dm\<lparr>db := UpdateDownload (db dm) d\<rparr>"

definition notifyCallbacks :: "DownloadManager \<Rightarrow> Download \<Rightarrow> DownloadManager" where
  "notifyCallbacks dm d = dm\<lparr>events := events dm @ [d]\<rparr>"

text \<open>
  \<open>StartDownload\<close> loads the record, refuses one that is already downloading,
  and otherwise builds a job around the loaded record, registers it under the
  id and hands it to a new goroutine. The result is the error, or the address
  of the job the goroutine \<open>executeDownload\<close> was started on.
\<close>

definition StartDownload ::
  "DownloadManager \<Rightarrow> int \<Rightarrow> time \<Rightarrow> DownloadManager \<times> (go_error + nat)" where
  "StartDownload dm ident now =
     (case GetDownload (db dm) ident of
        Inl err \<Rightarrow> (dm, Inl err)
      | Inr d \<Rightarrow>
          if Status d = StatusDownloading then (dm, Inl ErrAlreadyInProgress)
          else
            (let a = next_job dm;
                 job = \<lparr>download = d, ctx_done = False,
                        client_timeout = Timeout (config dm), chunks = [],
                        lastUpdate = now\<rparr>
             in (dm\<lparr>jobs := (jobs dm)(a := job), next_job := Suc a,
                    downloads := (downloads dm)(ident \<mapsto> a)\<rparr>, Inr a)))"

text \<open>
  \<open>executeDownload\<close>, first part (up to the first \<open>updateDownload\<close>): one more
  active download, the record becomes Downloading and is stamped and persisted.
\<close>

definition executeDownload_begin :: "DownloadManager \<Rightarrow> nat \<Rightarrow> time \<Rightarrow> DownloadManager" where
  "executeDownload_begin dm a now =
     (let job = jobs dm a;
          d = (download job)\<lparr>Status := StatusDownloading, StartedAt := Some now\<rparr>
      in updateDownload
           (dm\<lparr>activeDownloads := activeDownloads dm + 1,
               jobs := (jobs dm)(a := job\<lparr>download := d\<rparr>)\<rparr>) d)"

text \<open>
  What the two calls of the probe give: \<open>http.NewRequest\<close> failed (its error is
  dropped, the request is nil), \<open>client.Do\<close> returned an error, or the response,
  of which \<open>Header.Get\<close> is read.
\<close>

datatype head_result =
    RequestNil
  | DoError go_error
  | Response "string \<Rightarrow> string"

text \<open>
  \<open>supportsRangeRequests\<close>. The request is sent through
  \<open>dm.downloads[0].client\<close>: the registry is read at key 0, whatever job is being
  run. A map without the key yields a nil \<open>*DownloadJob\<close>, and reading its field
  \<open>client\<close> panics. With a client, \<open>Do\<close> on a nil request panics as well.
\<close>

definition supportsRangeRequests :: "DownloadManager \<Rightarrow> head_result \<Rightarrow> go_error + bool" where
  "supportsRangeRequests dm resp =
     (case downloads dm 0 of
        None \<Rightarrow> Inl PanicNilDeref
      | Some a0 \<Rightarrow>
          (case resp of
             RequestNil \<Rightarrow> Inl PanicNilDeref
           | DoError err \<Rightarrow> Inr False
           | Response header_get \<Rightarrow> Inr (header_get ''Accept-Ranges'' = ''bytes'')))"

text \<open>
  The choice of \<open>executeDownload\<close> between \<open>downloadWithChunks\<close> (\<open>True\<close>) and
  \<open>downloadSingleFile\<close> (\<open>False\<close>).
\<close>

definition executeDownload_ranged ::
  "DownloadManager \<Rightarrow> nat \<Rightarrow> head_result \<Rightarrow> go_error + bool" where
  "executeDownload_ranged dm a resp =
     (case supportsRangeRequests dm resp of
        Inl p \<Rightarrow> Inl p
      | Inr supportsRange \<Rightarrow>
          Inr (supportsRange \<and> Size (download (jobs dm a)) > ChunkSize (config dm)))"

text \<open>
  \<open>executeDownload\<close>, last part: the terminal transition on the error the fetch
  returned, persisted and announced; the job leaves the registry and the
  deferred decrement of \<open>activeDownloads\<close> runs.
\<close>

definition executeDownload_end ::
  "DownloadManager \<Rightarrow> nat \<Rightarrow> go_error option \<Rightarrow> time \<Rightarrow> DownloadManager" where
  "executeDownload_end dm a err now =
     (let job = jobs dm a;
          d = (case err of
                 Some e \<Rightarrow> (download job)\<lparr>Status := StatusFailed, Error := err_msg e\<rparr>
               | None \<Rightarrow>
                   (download job)\<lparr>Status := StatusCompleted, CompletedAt := Some now,
                                  Progress := 100\<rparr>);
          dm1 = notifyCallbacks
                  (updateDownload (dm\<lparr>jobs := (jobs dm)(a := job\<lparr>download := d\<rparr>)\<rparr>) d) d
      in dm1\<lparr>downloads := (downloads dm1)(ID d := None),
             activeDownloads := activeDownloads dm1 - 1\<rparr>)"

text \<open>
  \<open>PauseDownload\<close>: cancel the registered job's context, write Paused into the
  job's record, persist and announce it.
\<close>

definition PauseDownload :: "DownloadManager \<Rightarrow> int \<Rightarrow> DownloadManager \<times> go_error option" where
  "PauseDownload dm ident =
     (case downloads dm ident of
        None \<Rightarrow> (dm, Some ErrNotFound)
      | Some a \<Rightarrow>
          (let job = jobs dm a;
               d = (download job)\<lparr>Status := StatusPaused\<rparr>;
               dm1 = dm\<lparr>jobs := (jobs dm)(a := job\<lparr>ctx_done := True, download := d\<rparr>)\<rparr>
           in (notifyCallbacks (updateDownload dm1 d) d, None)))"

text \<open>
  \<open>CancelDownload\<close>: cancel the registered job's context if there is one; then
  load the record afresh, mark the loaded copy Cancelled, persist and announce
  it. (The removal of the partial file is outside the model.)
\<close>

definition CancelDownload :: "DownloadManager \<Rightarrow> int \<Rightarrow> DownloadManager \<times> go_error option" where
  "CancelDownload dm ident =
     (let dm1 = (case downloads dm ident of
                   None \<Rightarrow> dm
                 | Some a \<Rightarrow> dm\<lparr>jobs := (jobs dm)(a := (jobs dm a)\<lparr>ctx_done := True\<rparr>)\<rparr>)
      in case GetDownload (db dm1) ident of
           Inl err \<Rightarrow> (dm1, Some err)
         | Inr d0 \<Rightarrow>
             (let d = d0\<lparr>Status := StatusCancelled\<rparr>
              in (notifyCallbacks (updateDownload dm1 d) d, None)))"

text \<open>
  \<open>AddDownload\<close>. \<open>head\<close> is what \<open>http.Head(url)\<close> gives: an error, or the value
  \<open>strconv.ParseInt\<close> reads from \<open>Content-Length\<close> (0 when it does not parse);
  \<open>filename\<close> is \<open>filepath.Base(url)\<close>. The record is built pending with four
  chunks, inserted, given the new id, queued and announced.
\<close>

definition AddDownload ::
  "DownloadManager \<Rightarrow> (go_error + int) \<Rightarrow> string \<Rightarrow> string \<Rightarrow> string \<Rightarrow> time \<Rightarrow>
     DownloadManager \<times> (go_error + Download)" where
  "AddDownload dm head url filename path now =
     (case head of
        Inl err \<Rightarrow> (dm, Inl err)
      | Inr sz \<Rightarrow>
          (let d = \<lparr>ID = 0, URL = url, Filename = filename, Path = path, Size = sz,
                    Downloaded = 0, Status = StatusPending, Speed = 0, Progress = 0,
                    CreatedAt = now, StartedAt = None, CompletedAt = None, Error = [],
                    Chunks = 4\<rparr>
           in case SaveDownload (db dm) d of
                (d1, Inl err) \<Rightarrow> (dm\<lparr>db := d1\<rparr>, Inl err)
              | (d1, Inr ident) \<Rightarrow>
                  (let download1 = d\<lparr>ID := ident\<rparr>
                   in (notifyCallbacks
                         (dm\<lparr>db := d1, queue := Queue_Add (queue dm) download1\<rparr>) download1,
                       Inr download1))))"


subsection \<open>core: the statistics loop\<close>

text \<open>
  \<open>int64(x)\<close> of a float truncates towards zero; \<open>Duration.Seconds()\<close> is the
  duration in seconds as a float.
\<close>

definition go_int64_of :: "real \<Rightarrow> int" where
  "go_int64_of x = (if 0 \<le> x then \<lfloor>x\<rfloor> else \<lceil>x\<rceil>)"

definition Seconds :: "int \<Rightarrow> real" where
  "Seconds duration = real_of_int duration / 1000000000"

text \<open>
  The body of the loop of \<open>updateStats\<close> for the job at address \<open>a\<close>, at the time
  \<open>now\<close> it reads: for a job whose record is Downloading, progress from the two
  counters (kept as it is when the size is not positive), speed from the
  counter and the time since \<open>job.lastUpdate\<close>, then \<open>lastUpdate\<close> is reset, the
  record persisted and announced.
\<close>

definition updateStats_job :: "DownloadManager \<Rightarrow> nat \<Rightarrow> time \<Rightarrow> DownloadManager" where
  "updateStats_job dm a now =
     (let job = jobs dm a; d = download job in
      if Status d = StatusDownloading then
        (let d1 = (if Size d > 0
                   then d\<lparr>Progress := real_of_int (Downloaded d) / real_of_int (Size d) * 100\<rparr>
                   else d);
             d2 = (if lastUpdate job \<noteq> 0 \<and> now - lastUpdate job > 0
                   then d1\<lparr>Speed := go_int64_of (real_of_int (Downloaded d1) /
                                                 Seconds (now - lastUpdate job))\<rparr>
                   else d1);
             dm1 = dm\<lparr>jobs := (jobs dm)(a := job\<lparr>download := d2, lastUpdate := now\<rparr>)\<rparr>
         in notifyCallbacks (updateDownload dm1 d2) d2)
      else dm)"

text \<open>
  One tick of \<open>updateStats\<close>: the body for every registered job. Go ranges over a
  map in no fixed order, so the order is an argument: the ids visited, each with
  the time read for it.
\<close>

fun updateStats_tick :: "(int \<times> time) list \<Rightarrow> DownloadManager \<Rightarrow> DownloadManager" where
  "updateStats_tick [] dm = dm"
| "updateStats_tick ((ident, now) # rest) dm =
     updateStats_tick rest
       (case downloads dm ident of
          None \<Rightarrow> dm
        | Some a \<Rightarrow> updateStats_job dm a now)"

subsection \<open>core: the rate limiter\<close>

text \<open>
  \<open>newRateLimitedReader\<close> starts a goroutine on a ticker of period
  \<open>time.Second / time.Duration(maxBytesPerSecond/1024)\<close>, in nanoseconds. Both
  divisions are integer divisions: a divisor 0 panics, and so does \<open>NewTicker\<close>
  on a period that is not positive.
\<close>

definition ticker_period :: "int \<Rightarrow> go_error + int" where
  "ticker_period maxBytesPerSecond =
     (let k = go_quot maxBytesPerSecond 1024 in
      if k = 0 then Inl PanicDivideByZero
      else (let p = go_quot 1000000000 k in
            if p \<le> 0 then Inl PanicTickerInterval else Inr p))"

text \<open>
  The channel \<open>limiter\<close> has capacity 1: it is empty or holds one tick. On each
  tick the goroutine sends without blocking (\<open>select\<close> with \<open>default\<close>), so a
  tick that finds the channel full is dropped. \<open>Read\<close> receives from the
  channel, which blocks while it is empty (\<open>None\<close>: the call has not returned),
  and then calls the underlying reader once with the caller's buffer (\<open>rd p\<close>
  stands for \<open>r.reader.Read(p)\<close>).
\<close>

definition limiter_tick :: "time \<Rightarrow> time option \<Rightarrow> time option" where
  "limiter_tick t limiter = (case limiter of None \<Rightarrow> Some t | Some t0 \<Rightarrow> Some t0)"

definition rateLimitedReader_Read ::
  "('p \<Rightarrow> 'r) \<Rightarrow> time option \<Rightarrow> 'p \<Rightarrow> (time option \<times> 'r) option" where
  "rateLimitedReader_Read rd limiter p =
     (case limiter of None \<Rightarrow> None | Some t \<Rightarrow> Some (None, rd p))"

subsection \<open>core: fetching\<close>

text \<open>
  What one turn of a read loop meets: the byte count and the error of
  \<open>reader.Read(buffer)\<close>, and the error of the write that follows a read of
  more than zero bytes. Whether the job's context is done when the turn polls
  it is passed beside it.
\<close>

record read_ev =
  ev_n :: int
  ev_err :: "go_error option"
  ev_werr :: "go_error option"

text \<open>
  Where a fetch stands: still in its loop, returned (with an error or nil), or
  stopped by a panic.
\<close>

datatype outcome = Running | Return "go_error option" | Panic go_error

definition after_read :: "go_error option \<Rightarrow> outcome" where
  "after_read err =
     (case err of
        None \<Rightarrow> Running
      | Some e \<Rightarrow> if e = EOF then Return None else Return (Some e))"

text \<open>
  One turn of the loop of \<open>downloadChunk\<close>, on the job's record and the chunk.
\<close>

definition downloadChunk_iter ::
  "bool \<Rightarrow> read_ev \<Rightarrow> Download \<times> ChunkDownloader \<Rightarrow> outcome \<times> Download \<times> ChunkDownloader" where
  "downloadChunk_iter cancelled ev s =
     (case s of (d, chunk) \<Rightarrow>
        if cancelled then (Return (Some ErrCanceled), d, chunk)
        else if ev_n ev > 0 then
          (let chunk1 = chunk\<lparr>c_downloaded := wrap64 (c_downloaded chunk + ev_n ev)\<rparr> in
           case ev_werr ev of
             Some writeErr \<Rightarrow> (Return (Some writeErr), d, chunk1)
           | None \<Rightarrow>
               (after_read (ev_err ev),
                d\<lparr>Downloaded := wrap64 (Downloaded d + ev_n ev)\<rparr>, chunk1))
        else (after_read (ev_err ev), d, chunk))"

fun downloadChunk_loop ::
  "(bool \<times> read_ev) list \<Rightarrow> Download \<times> ChunkDownloader \<Rightarrow> outcome \<times> Download \<times> ChunkDownloader" where
  "downloadChunk_loop [] s = (Running, s)"
| "downloadChunk_loop ((cancelled, ev) # rest) s =
     (case downloadChunk_iter cancelled ev s of
        (Running, s1) \<Rightarrow> downloadChunk_loop rest s1
      | (r, s1) \<Rightarrow> (r, s1))"

text \<open>
  What a fetch meets before its loop: the errors of building the request, of
  \<open>client.Do\<close> and of \<open>os.Create\<close> (single file only), and then the turns of
  the loop over the response body. With a speed limit the body is read through
  the rate limiter, which delays the reads and does not change them; but the
  limiter's ticker goroutine panics on a bad period, and a panic in any
  goroutine stops the process: it is the outcome of the fetch here. A body
  that runs out of turns leaves the fetch in its loop (\<open>Running\<close>).
\<close>

record fetch_env =
  env_req_err :: "go_error option"
  env_do_err :: "go_error option"
  env_create_err :: "go_error option"
  env_body :: "(bool \<times> read_ev) list"

definition downloadChunk ::
  "DownloadConfig \<Rightarrow> fetch_env \<Rightarrow> Download \<times> ChunkDownloader \<Rightarrow> outcome \<times> Download \<times> ChunkDownloader" where
  "downloadChunk cfg env s =
     (case env_req_err env of
        Some err \<Rightarrow> (Return (Some err), s)
      | None \<Rightarrow>
          (case env_do_err env of
             Some err \<Rightarrow> (Return (Some err), s)
           | None \<Rightarrow>
               if MaxSpeed cfg > 0 then
                 (if Chunks (fst s) = 0 then (Panic PanicDivideByZero, s)
                  else
                    (case ticker_period (go_quot (MaxSpeed cfg) (Chunks (fst s))) of
                       Inl p \<Rightarrow> (Panic p, s)
                     | Inr period \<Rightarrow> downloadChunk_loop (env_body env) s))
               else downloadChunk_loop (env_body env) s))"

text \<open>One turn of the loop of \<open>downloadSingleFile\<close>, and the function.\<close>

definition downloadSingleFile_iter :: "bool \<Rightarrow> read_ev \<Rightarrow> Download \<Rightarrow> outcome \<times> Download" where
  "downloadSingleFile_iter cancelled ev d =
     (if cancelled then (Return (Some ErrCanceled), d)
      else if ev_n ev > 0 then
        (case ev_werr ev of
           Some writeErr \<Rightarrow> (Return (Some writeErr), d)
         | None \<Rightarrow> (after_read (ev_err ev), d\<lparr>Downloaded := wrap64 (Downloaded d + ev_n ev)\<rparr>))
      else (after_read (ev_err ev), d))"

fun downloadSingleFile_loop :: "(bool \<times> read_ev) list \<Rightarrow> Download \<Rightarrow> outcome \<times> Download" where
  "downloadSingleFile_loop [] d = (Running, d)"
| "downloadSingleFile_loop ((cancelled, ev) # rest) d =
     (case downloadSingleFile_iter cancelled ev d of
        (Running, d1) \<Rightarrow> downloadSingleFile_loop rest d1
      | (r, d1) \<Rightarrow> (r, d1))"

definition downloadSingleFile :: "DownloadConfig \<Rightarrow> fetch_env \<Rightarrow> Download \<Rightarrow> outcome \<times> Download" where
  "downloadSingleFile cfg env d =
     (case env_req_err env of
        Some err \<Rightarrow> (Return (Some err), d)
      | None \<Rightarrow>
          (case env_do_err env of
             Some err \<Rightarrow> (Return (Some err), d)
           | None \<Rightarrow>
               (case env_create_err env of
                  Some err \<Rightarrow> (Return (Some err), d)
                | None \<Rightarrow>
                    if MaxSpeed cfg > 0 then
                      (case ticker_period (MaxSpeed cfg) of
                         Inl p \<Rightarrow> (Panic p, d)
                       | Inr period \<Rightarrow> downloadSingleFile_loop (env_body env) d)
                    else downloadSingleFile_loop (env_body env) d)))"

text \<open>
  A turn of the single-stream loop as a step of the manager's state, for the job
  at address \<open>a\<close>: the poll reads the job's own context, the counter is that of
  the job's record.
\<close>

definition downloadSingleFile_step ::
  "DownloadManager \<Rightarrow> nat \<Rightarrow> read_ev \<Rightarrow> outcome \<times> DownloadManager" where
  "downloadSingleFile_step dm a ev =
     (let job = jobs dm a in
      case downloadSingleFile_iter (ctx_done job) ev (download job) of
        (r, d) \<Rightarrow> (r, dm\<lparr>jobs := (jobs dm)(a := job\<lparr>download := d\<rparr>)\<rparr>))"

subsection \<open>core: the byte ranges of a ranged download\<close>

text \<open>
  \<open>downloadWithChunks\<close> computes \<open>chunkSize := download.Size / int64(download.Chunks)\<close>
  once and, for \<open>i\<close> from 0 below \<open>Chunks\<close>, the range of chunk \<open>i\<close>: it starts at
  \<open>i * chunkSize\<close> and ends at \<open>start + chunkSize - 1\<close>, but the last one ends at
  \<open>Size - 1\<close>. The arithmetic is that of \<open>int64\<close>.
\<close>

definition chunk_range :: "int \<Rightarrow> int \<Rightarrow> int \<Rightarrow> int \<times> int" where
  "chunk_range sz n i =
     (let chunkSize = go_quot sz n;
          start = wrap64 (i * chunkSize);
          stop = wrap64 (wrap64 (start + chunkSize) - 1)
      in (start, if i = n - 1 then wrap64 (sz - 1) else stop))"

definition new_chunks :: "int \<Rightarrow> int \<Rightarrow> ChunkDownloader list" where
  "new_chunks sz n =
     map (\<lambda>i. case chunk_range sz n i of
                 (start, stop) \<Rightarrow> \<lparr>c_start = start, c_end = stop, c_downloaded = 0\<rparr>)
       [0..n - 1]"

text \<open>
  \<open>downloadWithChunks\<close> up to the point where every chunk goroutine has been
  started: the division panics on \<open>Chunks = 0\<close>, creating or truncating the file
  can fail, \<open>make(chan error, Chunks)\<close> panics on a negative capacity, and
  otherwise the new chunks are appended to \<open>job.chunks\<close>.
\<close>

definition downloadWithChunks_setup ::
  "go_error option \<Rightarrow> go_error option \<Rightarrow> DownloadJob \<Rightarrow> outcome \<times> DownloadJob" where
  "downloadWithChunks_setup create_err truncate_err job =
     (let d = download job in
      if Chunks d = 0 then (Panic PanicDivideByZero, job)
      else
        (case create_err of
           Some err \<Rightarrow> (Return (Some err), job)
         | None \<Rightarrow>
             (case truncate_err of
                Some err \<Rightarrow> (Return (Some err), job)
              | None \<Rightarrow>
                  if Chunks d < 0 then (Panic PanicMakeChan, job)
                  else (Running, job\<lparr>chunks := chunks job @ new_chunks (Size d) (Chunks d)\<rparr>))))"

text \<open>The set of file offsets a chunk owns.\<close>

definition chunk_bytes :: "ChunkDownloader \<Rightarrow> int set" where
  "chunk_bytes c = {c_start c .. c_end c}"

subsection \<open>Concrete records and states\<close>

text \<open>
  A record as \<open>AddDownload\<close> builds it (four chunks, nothing downloaded), with
  the given id, size and status; and a stored row that \<open>GetDownload\<close> can load
  (its \<open>error\<close> is text, as after any update).
\<close>

definition example_record :: "int \<Rightarrow> int \<Rightarrow> DownloadStatus \<Rightarrow> Download" where
  "example_record ident sz st =
     \<lparr>ID = ident, URL = ''http://example.org/f.bin'', Filename = ''f.bin'',
      Path = ''/tmp'', Size = sz, Downloaded = 0, Status = st, Speed = 0,
      Progress = 0, CreatedAt = 1000, StartedAt = None, CompletedAt = None,
      Error = [], Chunks = 4\<rparr>"

definition example_row :: "int \<Rightarrow> int \<Rightarrow> DownloadStatus \<Rightarrow> row" where
  "example_row sz got st =
     \<lparr>col_url = ''http://example.org/f.bin'', col_filename = ''f.bin'',
      col_path = ''/tmp'', col_size = sz, col_downloaded = got, col_status = st,
      col_speed = 0, col_progress = 0, col_created_at = 1000,
      col_started_at = None, col_completed_at = None, col_error = Some [],
      col_chunks = 4\<rparr>"

definition empty_db :: database where
  "empty_db = \<lparr>entries = [], seq = 0\<rparr>"

text \<open>
  A table with four loadable rows, ids 0 to 3, each of 1000 bytes; row 0 is a
  paused download with 600 bytes counted, the others are pending.
\<close>

definition example_db :: database where
  "example_db =
     \<lparr>entries = [(0, example_row 1000 600 StatusPaused),
                 (1, example_row 1000 0 StatusPending),
                 (2, example_row 1000 0 StatusPending),
                 (3, example_row 1000 0 StatusPending)],
      seq = 3\<rparr>"


definition accept_ranges_bytes :: head_result where
  "accept_ranges_bytes = Response (\<lambda>h. if h = ''Accept-Ranges'' then ''bytes'' else [])"

text \<open>
  The manager over \<open>example_db\<close> after \<open>StartDownload(0)\<close> at second 10 and the
  first part of \<open>executeDownload\<close> on the new job (address 0), also at second 10.
\<close>

definition example_started :: DownloadManager where
  "example_started =
     executeDownload_begin
       (fst (StartDownload (NewDownloadManager example_db) 0 10000000000)) 0 10000000000"


section \<open>Facts used throughout\<close>

lemmas status_defs =
  StatusPending_def StatusDownloading_def StatusPaused_def
  StatusCompleted_def StatusFailed_def StatusCancelled_def

lemma wrap64_id: "- (2 ^ 63) \<le> x \<Longrightarrow> x < 2 ^ 63 \<Longrightarrow> wrap64 x = x"
  by (simp add: wrap64_def)

lemma go_quot_pos: "0 \<le> a \<Longrightarrow> 0 < b \<Longrightarrow> go_quot a b = a div b"
  by (simp add: go_quot_def)

lemma mult_quot_le:
  fixes c S i :: int
  assumes "0 < c" "0 \<le> S" "0 \<le> i" "i \<le> c"
  shows "i * (S div c) \<le> S"
proof -
  have q: "0 \<le> S div c" using assms by (simp add: pos_imp_zdiv_nonneg_iff)
  have "i * (S div c) \<le> c * (S div c)" using assms q by (simp add: mult_right_mono)
  also have "\<dots> \<le> S"
    using mult_div_mod_eq [of c S] pos_mod_sign [of c S] assms by linarith
  finally show ?thesis .
qed


text \<open>The state \<open>example_started\<close>, written out.\<close>

lemma example_started_eq:
  "example_started =
     \<lparr>db = \<lparr>entries = [(0, (example_row 1000 600 StatusDownloading)
                                \<lparr>col_started_at := Some 10000000000\<rparr>),
                        (1, example_row 1000 0 StatusPending),
                        (2, example_row 1000 0 StatusPending),
                        (3, example_row 1000 0 StatusPending)],
             seq = 3\<rparr>,
      config = DefaultConfig,
      jobs = (\<lambda>a. zero_job)(0 :=
        \<lparr>download = (example_record 0 1000 StatusDownloading)
                      \<lparr>Downloaded := 600, StartedAt := Some 10000000000\<rparr>,
         ctx_done = False, client_timeout = 30000000000, chunks = [],
         lastUpdate = 10000000000\<rparr>),
      next_job = 1, downloads = [0 \<mapsto> 0], queue = [], activeDownloads = 1, events = []\<rparr>"
  by (simp add: example_started_def executeDownload_begin_def StartDownload_def
      NewDownloadManager_def GetDownload_def rows_def example_db_def example_row_def
      example_record_def status_defs updateDownload_def UpdateDownload_def set_columns_def
      DefaultConfig_def NewQueue_def Let_def)

lemma example_started_row:
  "rows (db example_started) 0 =
     Some ((example_row 1000 600 StatusDownloading)\<lparr>col_started_at := Some 10000000000\<rparr>)"
  by (simp add: example_started_eq rows_def)

lemma example_started_job:
  "jobs example_started 0 =
     \<lparr>download = (example_record 0 1000 StatusDownloading)
                      \<lparr>Downloaded := 600, StartedAt := Some 10000000000\<rparr>,
         ctx_done = False, client_timeout = 30000000000, chunks = [],
         lastUpdate = 10000000000\<rparr>"
  by (simp add: example_started_eq)


text \<open>The store and the manager, operation by operation.\<close>

lemma GetDownload_ID: "GetDownload d ident = Inr l \<Longrightarrow> ID l = ident"
  by (auto simp: GetDownload_def split: option.splits)

lemma rows_UpdateDownload:
  "rows (UpdateDownload d l) k =
     (if k = ID l then map_option (set_columns l) (rows d k) else rows d k)"
proof -
  have "map_of (map (\<lambda>(j, r). if j = ID l then (j, set_columns l r) else (j, r)) es) k =
          (if k = ID l then map_option (set_columns l) (map_of es k) else map_of es k)" for es
    by (induction es) auto
  then show ?thesis by (simp add: rows_def UpdateDownload_def)
qed

lemma seq_UpdateDownload: "seq (UpdateDownload d l) = seq d"
  by (simp add: UpdateDownload_def)

lemma UpdateDownload_status:
  assumes "rows d (ID l) = Some r"
  shows "map_option col_status (rows (UpdateDownload d l) (ID l)) = Some (Status l)"
    and "map_option col_error (rows (UpdateDownload d l) (ID l)) = Some (Some (Error l))"
    and "map_option col_downloaded (rows (UpdateDownload d l) (ID l)) = Some (Downloaded l)"
    and "map_option col_size (rows (UpdateDownload d l) (ID l)) = Some (col_size r)"
  using assms by (simp_all add: rows_UpdateDownload set_columns_def)

lemma UpdateDownload_keeps_row:
  "rows d k = Some r \<Longrightarrow> \<exists>r1. rows (UpdateDownload d l) k = Some r1"
  by (auto simp: rows_UpdateDownload)

text \<open>
  The id \<open>new_rowid\<close> chooses is above \<open>seq\<close> and above every id in the table, and
  the row \<open>SaveDownload\<close> appends is the row of that id.
\<close>

lemma largest_rowid_None: "(largest_rowid es = None) = (es = [])"
  by (induction es rule: largest_rowid.induct) (auto split: option.splits)

lemma largest_rowid_bound:
  "largest_rowid es = Some m \<Longrightarrow> (k, r) \<in> set es \<Longrightarrow> k \<le> m"
proof (induction es arbitrary: m rule: largest_rowid.induct)
  case 1
  then show ?case by simp
next
  case (2 j q rest)
  show ?case
  proof (cases "largest_rowid rest")
    case None
    then have "rest = []" by (simp add: largest_rowid_None)
    with "2.prems" None show ?thesis by simp
  next
    case (Some n)
    with "2.prems" have m: "m = max j n" by simp
    from "2.prems"(2) have "(k, r) = (j, q) \<or> (k, r) \<in> set rest" by simp
    then show ?thesis
    proof
      assume "(k, r) = (j, q)"
      with m show ?thesis by simp
    next
      assume "(k, r) \<in> set rest"
      from "2.IH" [OF Some this] m show ?thesis by simp
    qed
  qed
qed

lemma new_rowid_above:
  assumes "new_rowid d = Inr i"
  shows "seq d < i" and "(k, r) \<in> set (entries d) \<Longrightarrow> k < i" and "rows d i = None"
proof -
  show s: "seq d < i"
    using assms by (auto simp: new_rowid_def split: option.splits if_splits)
  show b: "k < i" if "(k, r) \<in> set (entries d)" for k r
  proof (cases "largest_rowid (entries d)")
    case None
    with that show ?thesis by (simp add: largest_rowid_None)
  next
    case (Some m)
    then have "k \<le> m" using that by (rule largest_rowid_bound)
    moreover from assms Some have "m < i"
      by (auto simp: new_rowid_def split: if_splits)
    ultimately show ?thesis by simp
  qed
  have "i \<notin> fst ` set (entries d)" using b by force
  then show "rows d i = None" by (simp add: rows_def map_of_eq_None_iff)
qed

lemma SaveDownload_new:
  assumes "new_rowid d = Inr i"
  shows "SaveDownload d r =
           (d\<lparr>entries := entries d @
                 [(i, \<lparr>col_url = URL r, col_filename = Filename r, col_path = Path r,
                       col_size = Size r, col_downloaded = Downloaded r,
                       col_status = Status r, col_speed = 0, col_progress = 0,
                       col_created_at = CreatedAt r, col_started_at = None,
                       col_completed_at = None, col_error = None,
                       col_chunks = Chunks r\<rparr>)],
               seq := i\<rparr>, Inr i)"
  using assms by (simp add: SaveDownload_def)

lemma rows_SaveDownload:
  assumes "new_rowid d = Inr i"
  shows "rows (fst (SaveDownload d r)) =
           (rows d)(i \<mapsto> \<lparr>col_url = URL r, col_filename = Filename r, col_path = Path r,
                        col_size = Size r, col_downloaded = Downloaded r,
                        col_status = Status r, col_speed = 0, col_progress = 0,
                        col_created_at = CreatedAt r, col_started_at = None,
                        col_completed_at = None, col_error = None,
                        col_chunks = Chunks r\<rparr>)"
proof
  fix k
  have n: "map_of (entries d) i = None"
    using new_rowid_above(3) [OF assms] by (simp add: rows_def)
  show "rows (fst (SaveDownload d r)) k =
          ((rows d)(i \<mapsto> \<lparr>col_url = URL r, col_filename = Filename r, col_path = Path r,
                        col_size = Size r, col_downloaded = Downloaded r,
                        col_status = Status r, col_speed = 0, col_progress = 0,
                        col_created_at = CreatedAt r, col_started_at = None,
                        col_completed_at = None, col_error = None,
                        col_chunks = Chunks r\<rparr>)) k"
    using n
    by (cases "map_of (entries d) k")
       (auto simp: SaveDownload_new [OF assms] rows_def map_add_def)
qed



text \<open>
  A record that \<open>AddDownload\<close> has just inserted does not load: its row has NULL
  in \<open>error\<close>. \<open>StartDownload\<close> on its id returns the scan error and registers
  nothing.
\<close>

lemma added_record_does_not_start:
  assumes "AddDownload dm (Inr sz) url filename path now = (dm1, Inr d1)"
  shows "map_option col_status (rows (db dm1) (ID d1)) = Some StatusPending"
    and "GetDownload (db dm1) (ID d1) = Inl ErrScanNull"
    and "StartDownload dm1 (ID d1) later = (dm1, Inl ErrScanNull)"
proof -
  let ?d = "\<lparr>ID = 0, URL = url, Filename = filename, Path = path, Size = sz,
             Downloaded = 0, Status = StatusPending, Speed = 0, Progress = 0,
             CreatedAt = now, StartedAt = None, CompletedAt = None, Error = [],
             Chunks = 4\<rparr>"
  from assms obtain i where i: "new_rowid (db dm) = Inr i"
    by (cases "new_rowid (db dm)")
       (auto simp: AddDownload_def SaveDownload_def Let_def split: sum.splits)
  from assms i have d1: "ID d1 = i"
    and db1: "db dm1 = fst (SaveDownload (db dm) ?d)"
    by (auto simp: AddDownload_def SaveDownload_new Let_def notifyCallbacks_def)
  have r: "rows (db dm1) i =
             Some \<lparr>col_url = url, col_filename = filename, col_path = path,
                   col_size = sz, col_downloaded = 0,
                   col_status = StatusPending, col_speed = 0, col_progress = 0,
                   col_created_at = now, col_started_at = None,
                   col_completed_at = None, col_error = None,
                   col_chunks = 4\<rparr>"
    by (simp add: db1 rows_SaveDownload [OF i])
  show "map_option col_status (rows (db dm1) (ID d1)) = Some StatusPending"
    by (simp add: d1 r)
  show g: "GetDownload (db dm1) (ID d1) = Inl ErrScanNull"
    by (simp add: GetDownload_def d1 r)
  show "StartDownload dm1 (ID d1) later = (dm1, Inl ErrScanNull)"
    by (simp add: StartDownload_def g)
qed

text \<open>
  A step of the manager on a job is the turn of the loop on the job's record.
\<close>

lemma downloadSingleFile_step_iter:
  "fst (downloadSingleFile_step dm a ev) =
     fst (downloadSingleFile_iter (ctx_done (jobs dm a)) ev (download (jobs dm a))) \<and>
   download (jobs (snd (downloadSingleFile_step dm a ev)) a) =
     snd (downloadSingleFile_iter (ctx_done (jobs dm a)) ev (download (jobs dm a)))"
  by (simp add: downloadSingleFile_step_def Let_def split: prod.splits)

lemma downloadSingleFile_body:
  "downloadSingleFile cfg
     \<lparr>env_req_err = None, env_do_err = None, env_create_err = None, env_body = body\<rparr> d =
   (if MaxSpeed cfg > 0
    then (case ticker_period (MaxSpeed cfg) of
            Inl p \<Rightarrow> (Panic p, d)
          | Inr period \<Rightarrow> downloadSingleFile_loop body d)
    else downloadSingleFile_loop body d)"
  by (simp add: downloadSingleFile_def split: sum.splits)

section \<open>Pause, cancel and the terminal transition of the runner\<close>

lemma PauseDownload_registered:
  assumes "downloads dm ident = Some a"
  shows "PauseDownload dm ident =
           (dm\<lparr>jobs := (jobs dm)(a := (jobs dm a)\<lparr>ctx_done := True,
                     download := (download (jobs dm a))\<lparr>Status := StatusPaused\<rparr>\<rparr>),
               db := UpdateDownload (db dm) ((download (jobs dm a))\<lparr>Status := StatusPaused\<rparr>),
               events := events dm @ [(download (jobs dm a))\<lparr>Status := StatusPaused\<rparr>]\<rparr>, None)"
  using assms by (simp add: PauseDownload_def Let_def notifyCallbacks_def updateDownload_def)

text \<open>
  Claim C1. A running job that is paused is to end as Paused, and a
  cancelled fetch is never to end as Failed. In the code \<open>PauseDownload\<close> cancels
  the job's context and records Paused; the fetch then sees the context done
  at its next poll and returns \<open>ctx.Err()\<close>, and the runner treats that like any
  other error: the job's record and its row end as Failed with the error
  \<open>context canceled\<close>. The byte counter is kept.
\<close>

theorem pause_unwinds_to_Failed:
  "downloads dm ident = Some a \<and> ID (download (jobs dm a)) = ident \<and>
   rows (db dm) ident = Some r \<longrightarrow>
     (let dm1 = fst (PauseDownload dm ident);
          dm2 = snd (downloadSingleFile_step dm1 a ev);
          dm3 = executeDownload_end dm2 a (Some ErrCanceled) now
      in snd (PauseDownload dm ident) = None \<and>
         Status (download (jobs dm1 a)) = StatusPaused \<and>
         map_option col_status (rows (db dm1) ident) = Some StatusPaused \<and>
         fst (downloadSingleFile_step dm1 a ev) = Return (Some ErrCanceled) \<and>
         fst (downloadChunk_iter (ctx_done (jobs dm1 a)) ev (download (jobs dm1 a), chunk)) =
           Return (Some ErrCanceled) \<and>
         Status (download (jobs dm3 a)) = StatusFailed \<and>
         Error (download (jobs dm3 a)) = ''context canceled'' \<and>
         Downloaded (download (jobs dm3 a)) = Downloaded (download (jobs dm a)) \<and>
         map_option col_status (rows (db dm3) ident) = Some StatusFailed \<and>
         map_option col_error (rows (db dm3) ident) = Some (Some ''context canceled'') \<and>
         map_option col_downloaded (rows (db dm3) ident) =
           Some (Downloaded (download (jobs dm a))))"
proof (intro impI)
  assume h: "downloads dm ident = Some a \<and> ID (download (jobs dm a)) = ident \<and>
   rows (db dm) ident = Some r"
  let ?d = "download (jobs dm a)"
  let ?dp = "?d\<lparr>Status := StatusPaused\<rparr>"
  let ?df = "?d\<lparr>Status := StatusFailed, Error := ''context canceled''\<rparr>"
  have p: "PauseDownload dm ident =
           (dm\<lparr>jobs := (jobs dm)(a := (jobs dm a)\<lparr>ctx_done := True, download := ?dp\<rparr>),
               db := UpdateDownload (db dm) ?dp,
               events := events dm @ [?dp]\<rparr>, None)"
    using h by (simp add: PauseDownload_registered)
  have idp: "ID ?dp = ident" "ID ?df = ident" using h by simp_all
  have r1: "map_option col_status (rows (UpdateDownload (db dm) ?dp) ident) = Some StatusPaused"
    using UpdateDownload_status(1) [of "db dm" ?dp r] h by simp
  obtain r' where r': "rows (UpdateDownload (db dm) ?dp) ident = Some r'"
    using UpdateDownload_keeps_row [of "db dm" ident r ?dp] h by blast
  have u: "map_option col_status (rows (UpdateDownload (UpdateDownload (db dm) ?dp) ?df) ident)
             = Some StatusFailed"
      "map_option col_error (rows (UpdateDownload (UpdateDownload (db dm) ?dp) ?df) ident)
             = Some (Some ''context canceled'')"
      "map_option col_downloaded (rows (UpdateDownload (UpdateDownload (db dm) ?dp) ?df) ident)
             = Some (Downloaded ?d)"
    using UpdateDownload_status(1-3) [of "UpdateDownload (db dm) ?dp" ?df r'] r' idp by simp_all
  show "let dm1 = fst (PauseDownload dm ident);
          dm2 = snd (downloadSingleFile_step dm1 a ev);
          dm3 = executeDownload_end dm2 a (Some ErrCanceled) now
      in snd (PauseDownload dm ident) = None \<and>
         Status (download (jobs dm1 a)) = StatusPaused \<and>
         map_option col_status (rows (db dm1) ident) = Some StatusPaused \<and>
         fst (downloadSingleFile_step dm1 a ev) = Return (Some ErrCanceled) \<and>
         fst (downloadChunk_iter (ctx_done (jobs dm1 a)) ev (download (jobs dm1 a), chunk)) =
           Return (Some ErrCanceled) \<and>
         Status (download (jobs dm3 a)) = StatusFailed \<and>
         Error (download (jobs dm3 a)) = ''context canceled'' \<and>
         Downloaded (download (jobs dm3 a)) = Downloaded (download (jobs dm a)) \<and>
         map_option col_status (rows (db dm3) ident) = Some StatusFailed \<and>
         map_option col_error (rows (db dm3) ident) = Some (Some ''context canceled'') \<and>
         map_option col_downloaded (rows (db dm3) ident) =
           Some (Downloaded (download (jobs dm a)))"
    using r1 u
    by (simp add: p Let_def downloadSingleFile_step_def downloadSingleFile_iter_def
        downloadChunk_iter_def
        executeDownload_end_def notifyCallbacks_def updateDownload_def)
qed


theorem pause_unwinds_to_Failed_witness:
  "downloads example_started 0 = Some 0 \<and>
   ID (download (jobs example_started 0)) = 0 \<and>
   rows (db example_started) 0 =
     Some ((example_row 1000 600 StatusDownloading)\<lparr>col_started_at := Some 10000000000\<rparr>) \<and>
   Status (download (jobs (fst (PauseDownload example_started 0)) 0)) = StatusPaused \<and>
   fst (downloadSingleFile_step (fst (PauseDownload example_started 0)) 0
          \<lparr>ev_n = 100, ev_err = None, ev_werr = None\<rparr>) = Return (Some ErrCanceled) \<and>
   map_option col_status
     (rows (db (executeDownload_end
                  (snd (downloadSingleFile_step (fst (PauseDownload example_started 0)) 0
                          \<lparr>ev_n = 100, ev_err = None, ev_werr = None\<rparr>))
                  0 (Some ErrCanceled) 12000000000)) 0) = Some StatusFailed \<and>
   map_option col_downloaded
     (rows (db (executeDownload_end
                  (snd (downloadSingleFile_step (fst (PauseDownload example_started 0)) 0
                          \<lparr>ev_n = 100, ev_err = None, ev_werr = None\<rparr>))
                  0 (Some ErrCanceled) 12000000000)) 0) = Some 600"
proof -
  have h: "downloads example_started 0 = Some 0"
    "ID (download (jobs example_started 0)) = 0"
    "rows (db example_started) 0 =
       Some ((example_row 1000 600 StatusDownloading)\<lparr>col_started_at := Some 10000000000\<rparr>)"
    "Downloaded (download (jobs example_started 0)) = 600"
    by (simp_all add: example_started_eq example_record_def rows_def)
  show ?thesis
    using h pause_unwinds_to_Failed [where dm = example_started and ident = 0 and a = 0
        and r = "(example_row 1000 600 StatusDownloading)\<lparr>col_started_at := Some 10000000000\<rparr>"
        and ev = "\<lparr>ev_n = 100, ev_err = None, ev_werr = None\<rparr>"
        and chunk = "\<lparr>c_start = 0, c_end = 249, c_downloaded = 0\<rparr>"
        and now = 12000000000]
    by (simp add: Let_def)
qed


text \<open>
  The same after \<open>CancelDownload\<close>: the row it has marked Cancelled is overwritten
  with Failed when the runner ends.
\<close>

lemma cancel_unwinds_to_Failed:
  assumes "downloads dm ident = Some a" and "ID (download (jobs dm a)) = ident"
    and "GetDownload (db dm) ident = Inr d0"
  shows "snd (CancelDownload dm ident) = None"
    and "map_option col_status (rows (db (fst (CancelDownload dm ident))) ident) =
           Some StatusCancelled"
    and "fst (downloadSingleFile_step (fst (CancelDownload dm ident)) a ev) =
           Return (Some ErrCanceled)"
    and "map_option col_status
           (rows (db (executeDownload_end
                        (snd (downloadSingleFile_step (fst (CancelDownload dm ident)) a ev))
                        a (Some ErrCanceled) now)) ident) = Some StatusFailed"
proof -
  let ?dc = "d0\<lparr>Status := StatusCancelled\<rparr>"
  let ?df = "(download (jobs dm a))\<lparr>Status := StatusFailed, Error := ''context canceled''\<rparr>"
  from assms(3) obtain r where r: "rows (db dm) ident = Some r"
    by (auto simp: GetDownload_def split: option.splits)
  have i0: "ID d0 = ident" using assms(3) by (rule GetDownload_ID)
  have c: "CancelDownload dm ident =
             (dm\<lparr>jobs := (jobs dm)(a := (jobs dm a)\<lparr>ctx_done := True\<rparr>),
                 db := UpdateDownload (db dm) ?dc, events := events dm @ [?dc]\<rparr>, None)"
    using assms by (simp add: CancelDownload_def Let_def notifyCallbacks_def updateDownload_def)
  show "snd (CancelDownload dm ident) = None" by (simp add: c)
  have s1: "map_option col_status (rows (UpdateDownload (db dm) ?dc) ident) = Some StatusCancelled"
    using UpdateDownload_status(1) [of "db dm" ?dc r] r i0 by simp
  then show "map_option col_status (rows (db (fst (CancelDownload dm ident))) ident) =
           Some StatusCancelled" by (simp add: c)
  show "fst (downloadSingleFile_step (fst (CancelDownload dm ident)) a ev) =
           Return (Some ErrCanceled)"
    by (simp add: c downloadSingleFile_step_def downloadSingleFile_iter_def)
  obtain r' where r': "rows (UpdateDownload (db dm) ?dc) ident = Some r'"
    using UpdateDownload_keeps_row [of "db dm" ident r ?dc] r by blast
  have "map_option col_status (rows (UpdateDownload (UpdateDownload (db dm) ?dc) ?df) ident)
          = Some StatusFailed"
    using UpdateDownload_status(1) [of "UpdateDownload (db dm) ?dc" ?df r'] r' assms(2) by simp
  then show "map_option col_status
           (rows (db (executeDownload_end
                        (snd (downloadSingleFile_step (fst (CancelDownload dm ident)) a ev))
                        a (Some ErrCanceled) now)) ident) = Some StatusFailed"
    by (simp add: c Let_def downloadSingleFile_step_def downloadSingleFile_iter_def
        executeDownload_end_def notifyCallbacks_def updateDownload_def)
qed


section \<open>The downloaded counter\<close>








section \<open>The probe for range support\<close>

text \<open>
  With a job registered under key 0 and a request that could be built, the
  probe is as described: ranged mode is chosen exactly when the HEAD response
  carries \<open>Accept-Ranges: bytes\<close> and the size exceeds \<open>ChunkSize\<close>; a failed HEAD,
  a missing header or another value give single-stream mode. A URL of which no
  request can be built leaves the request nil, and the probe panics.
\<close>

lemma probe_with_job_0:
  assumes "downloads dm 0 = Some a0"
  shows "executeDownload_ranged dm a (Response header_get) =
           Inr (header_get ''Accept-Ranges'' = ''bytes'' \<and>
                Size (download (jobs dm a)) > ChunkSize (config dm))"
    and "executeDownload_ranged dm a (DoError err) = Inr False"
    and "executeDownload_ranged dm a RequestNil = Inl PanicNilDeref"
  using assms
  by (simp_all add: executeDownload_ranged_def supportsRangeRequests_def)

lemma example_started_1:
  "downloads (executeDownload_begin
       (fst (StartDownload (NewDownloadManager example_db) 1 10000000000)) 0 10000000000) = [1 \<mapsto> 0]"
  by (simp add: executeDownload_begin_def StartDownload_def
      NewDownloadManager_def GetDownload_def rows_def example_db_def example_row_def
      status_defs updateDownload_def Let_def)

text \<open>
  Claim C3. The probe is to issue its HEAD request through a valid client
  without faulting. The code reads the client of the job registered under key
  0, not of the job it runs: whenever no job is registered under key 0, the
  probe panics on a nil pointer before any request is sent, whatever the
  response would have been.
\<close>

theorem probe_without_job_0:
  "downloads dm 0 = None \<longrightarrow>
     supportsRangeRequests dm resp = Inl PanicNilDeref \<and>
     executeDownload_ranged dm a resp = Inl PanicNilDeref"
  by (simp add: executeDownload_ranged_def supportsRangeRequests_def)

theorem probe_without_job_0_witness:
  "downloads (executeDownload_begin
       (fst (StartDownload (NewDownloadManager example_db) 1 10000000000)) 0 10000000000) 0 = None \<and>
   supportsRangeRequests (executeDownload_begin
       (fst (StartDownload (NewDownloadManager example_db) 1 10000000000)) 0 10000000000)
       accept_ranges_bytes = Inl PanicNilDeref \<and>
   executeDownload_ranged (executeDownload_begin
       (fst (StartDownload (NewDownloadManager example_db) 1 10000000000)) 0 10000000000) 0
       accept_ranges_bytes = Inl PanicNilDeref"
proof -
  let ?dm = "executeDownload_begin
       (fst (StartDownload (NewDownloadManager example_db) 1 10000000000)) 0 10000000000"
  have n: "downloads ?dm 0 = None" by (simp add: example_started_1)
  show ?thesis using n probe_without_job_0 [of ?dm accept_ranges_bytes 0] by simp
qed


section \<open>A chunk fetch succeeds on end-of-stream, whatever it has read\<close>

lemma after_read_Return_None: "(after_read err = Return None) = (err = Some EOF)"
  by (simp add: after_read_def split: option.splits)

lemma after_read_Running: "(after_read err = Running) = (err = None)"
  by (simp add: after_read_def split: option.splits)

lemma downloadChunk_iter_success:
  assumes "downloadChunk_iter cancelled ev s = (Return None, s1)"
  shows "\<not> cancelled \<and> ev_err ev = Some EOF"
  using assms
  by (cases s)
     (auto simp: downloadChunk_iter_def Let_def after_read_Return_None
           split: if_splits option.splits)

lemma downloadChunk_loop_success:
  assumes "downloadChunk_loop body s = (Return None, s1)"
  shows "\<exists>pre ev post. body = pre @ (False, ev) # post \<and> ev_err ev = Some EOF"
  using assms
proof (induction body arbitrary: s)
  case Nil
  then show ?case by simp
next
  case (Cons turn rest)
  obtain dn ev where turn: "turn = (dn, ev)" by (cases turn)
  obtain r s2 where it: "downloadChunk_iter dn ev s = (r, s2)"
    by (cases "downloadChunk_iter dn ev s")
  show ?case
  proof (cases r)
    case Running
    with Cons.prems turn it have "downloadChunk_loop rest s2 = (Return None, s1)" by simp
    from Cons.IH [OF this] obtain pre ev' post
      where "rest = pre @ (False, ev') # post" "ev_err ev' = Some EOF" by blast
    then have "turn # rest = (turn # pre) @ (False, ev') # post \<and> ev_err ev' = Some EOF"
      by simp
    then show ?thesis by blast
  next
    case (Return e)
    with Cons.prems turn it have "e = None" "s2 = s1" by simp_all
    with it Return have "\<not> dn \<and> ev_err ev = Some EOF"
      using downloadChunk_iter_success by blast
    then have "turn # rest = [] @ (False, ev) # rest \<and> ev_err ev = Some EOF"
      using turn by simp
    then show ?thesis by blast
  next
    case (Panic p)
    with Cons.prems turn it show ?thesis by simp
  qed
qed

text \<open>
  Claim C4, as the code has it. A turn of the chunk loop that is not
  cancelled, reads end-of-stream and writes what it read without error returns
  nil, and the fetch with it: the bytes read are not compared with
  \<open>end - start + 1\<close>, for any chunk and any count. A chunk fetch returns nil only
  on a turn that read end-of-stream, so success means that the body ended, not
  that the range was delivered.
\<close>

theorem downloadChunk_success_on_EOF:
  "(\<not> cancelled \<and> ev_err ev = Some EOF \<and> (0 < ev_n ev \<longrightarrow> ev_werr ev = None) \<longrightarrow>
      fst (downloadChunk_iter cancelled ev (d, chunk)) = Return None \<and>
      downloadChunk_loop ((cancelled, ev) # rest) (d, chunk) =
        (Return None, snd (downloadChunk_iter cancelled ev (d, chunk)))) \<and>
   (fst (downloadChunk cfg env s) = Return None \<longrightarrow>
      (\<exists>pre ev1 post. env_body env = pre @ (False, ev1) # post \<and> ev_err ev1 = Some EOF))"
proof (intro conjI impI)
  assume h: "\<not> cancelled \<and> ev_err ev = Some EOF \<and> (0 < ev_n ev \<longrightarrow> ev_werr ev = None)"
  then show f: "fst (downloadChunk_iter cancelled ev (d, chunk)) = Return None"
    by (auto simp: downloadChunk_iter_def Let_def after_read_def)
  then show "downloadChunk_loop ((cancelled, ev) # rest) (d, chunk) =
        (Return None, snd (downloadChunk_iter cancelled ev (d, chunk)))"
    by (cases "downloadChunk_iter cancelled ev (d, chunk)") simp
next
  assume a: "fst (downloadChunk cfg env s) = Return None"
  then have "fst (downloadChunk_loop (env_body env) s) = Return None"
    by (auto simp: downloadChunk_def split: option.splits if_splits sum.splits)
  then have "downloadChunk_loop (env_body env) s =
               (Return None, snd (downloadChunk_loop (env_body env) s))"
    by (cases "downloadChunk_loop (env_body env) s") simp
  then show "\<exists>pre ev1 post. env_body env = pre @ (False, ev1) # post \<and> ev_err ev1 = Some EOF"
    by (rule downloadChunk_loop_success)
qed

theorem downloadChunk_success_on_EOF_witness:
  "fst (downloadChunk_iter False \<lparr>ev_n = 10, ev_err = Some EOF, ev_werr = None\<rparr>
          (example_record 0 1000 StatusDownloading,
           \<lparr>c_start = 0, c_end = 249, c_downloaded = 0\<rparr>)) = Return None \<and>
   fst (downloadChunk DefaultConfig
          \<lparr>env_req_err = None, env_do_err = None, env_create_err = None,
           env_body = [(False, \<lparr>ev_n = 10, ev_err = Some EOF, ev_werr = None\<rparr>)]\<rparr>
          (example_record 0 1000 StatusDownloading,
           \<lparr>c_start = 0, c_end = 249, c_downloaded = 0\<rparr>)) = Return None \<and>
   (\<exists>pre ev1 post.
      [(False, \<lparr>ev_n = 10, ev_err = Some EOF, ev_werr = None\<rparr>)] = pre @ (False, ev1) # post \<and>
      ev_err ev1 = Some EOF)"
proof -
  let ?ev = "\<lparr>ev_n = 10, ev_err = Some EOF, ev_werr = None\<rparr>"
  let ?s = "(example_record 0 1000 StatusDownloading, \<lparr>c_start = 0, c_end = 249, c_downloaded = 0\<rparr>)"
  let ?env = "\<lparr>env_req_err = None, env_do_err = None, env_create_err = None,
           env_body = [(False, ?ev)]\<rparr>"
  have r: "fst (downloadChunk DefaultConfig ?env ?s) = Return None"
    by (simp add: downloadChunk_def DefaultConfig_def downloadChunk_iter_def after_read_def
        Let_def)
  show ?thesis
    using r downloadChunk_success_on_EOF [of False ?ev "example_record 0 1000 StatusDownloading"
        "\<lparr>c_start = 0, c_end = 249, c_downloaded = 0\<rparr>" "[]" DefaultConfig ?env ?s]
    by simp
qed


text \<open>
  The claim as written fails for the chunk \<open>[0, 249]\<close> whose response body ends
  after 10 bytes: the fetch returns nil with 10 bytes counted.
\<close>

theorem short_read_counterexample:
  "downloadChunk DefaultConfig
     \<lparr>env_req_err = None, env_do_err = None, env_create_err = None,
      env_body = [(False, \<lparr>ev_n = 10, ev_err = None, ev_werr = None\<rparr>),
                  (False, \<lparr>ev_n = 0, ev_err = Some EOF, ev_werr = None\<rparr>)]\<rparr>
     (example_record 0 1000 StatusDownloading, \<lparr>c_start = 0, c_end = 249, c_downloaded = 0\<rparr>) =
     (Return None, (example_record 0 1000 StatusDownloading)\<lparr>Downloaded := 10\<rparr>,
      \<lparr>c_start = 0, c_end = 249, c_downloaded = 10\<rparr>) \<and>
   (10 :: int) < 249 - 0 + 1"
  by (simp add: downloadChunk_def DefaultConfig_def downloadChunk_iter_def after_read_def
      Let_def wrap64_def example_record_def)


section \<open>The byte ranges of a ranged download partition the file\<close>

lemma chunk_range_eq:
  assumes "1 \<le> c" "c \<le> S" "S < 2 ^ 63" "0 \<le> i" "i < c"
  shows "chunk_range S c i =
           (i * (S div c), if i = c - 1 then S - 1 else (i + 1) * (S div c) - 1)"
proof -
  let ?q = "S div c"
  have q0: "0 \<le> ?q" using assms by (simp add: pos_imp_zdiv_nonneg_iff)
  have gq: "go_quot S c = ?q" using assms by (simp add: go_quot_pos)
  have a: "i * ?q \<le> S" using mult_quot_le [of c S i] assms by simp
  have a0: "0 \<le> i * ?q" using assms q0 by simp
  have b: "(i + 1) * ?q \<le> S" using mult_quot_le [of c S "i + 1"] assms by simp
  have w1: "wrap64 (i * ?q) = i * ?q" using a a0 assms by (intro wrap64_id) auto
  have b': "i * ?q + ?q \<le> S" using b by (simp add: algebra_simps)
  have nn: "0 \<le> i * ?q + ?q" using a0 q0 by linarith
  have up: "i * ?q + ?q < 9223372036854775808" using b' assms by simp
  have w2: "wrap64 (i * ?q + ?q) = i * ?q + ?q"
    using nn up by (intro wrap64_id) simp_all
  have w3: "wrap64 (i * ?q + ?q - 1) = i * ?q + ?q - 1"
    using nn up by (intro wrap64_id) simp_all
  have w4: "wrap64 (S - 1) = S - 1" using assms by (intro wrap64_id) auto
  show ?thesis
    unfolding chunk_range_def Let_def gq w1 w2 w3 w4 by (simp add: algebra_simps)
qed

lemma new_chunks_length: "length (new_chunks S c) = nat c"
  by (simp add: new_chunks_def)

lemma new_chunks_nth:
  assumes "1 \<le> c" "c \<le> S" "S < 2 ^ 63" "0 \<le> i" "i < c"
  shows "new_chunks S c ! nat i =
           \<lparr>c_start = i * (S div c),
            c_end = (if i = c - 1 then S - 1 else (i + 1) * (S div c) - 1),
            c_downloaded = 0\<rparr>"
proof -
  have "[0..c - 1] ! nat i = i" using assms nth_upto [of 0 "nat i" "c - 1"] by simp
  moreover have "nat i < length [0..c - 1]" using assms by simp
  ultimately have "new_chunks S c ! nat i =
      (case chunk_range S c i of (start, stop) \<Rightarrow> \<lparr>c_start = start, c_end = stop, c_downloaded = 0\<rparr>)"
    by (simp add: new_chunks_def)
  then show ?thesis using chunk_range_eq [OF assms] by simp
qed

lemma quot_ge_1: "1 \<le> c \<Longrightarrow> c \<le> S \<Longrightarrow> 1 \<le> S div (c::int)"
  using pos_imp_zdiv_pos_iff [of c S] by simp

lemma new_chunks_bytes:
  assumes "1 \<le> c" "c \<le> S" "S < 2 ^ 63" "0 \<le> i" "i < c"
  shows "chunk_bytes (new_chunks S c ! nat i) =
           {i * (S div c) .. (if i = c - 1 then S - 1 else (i + 1) * (S div c) - 1)}"
  using new_chunks_nth [OF assms] by (simp add: chunk_bytes_def)

lemma new_chunks_disjoint:
  assumes "1 \<le> c" "c \<le> S" "S < 2 ^ 63" "0 \<le> i" "i < j" "j < c"
  shows "chunk_bytes (new_chunks S c ! nat i) \<inter> chunk_bytes (new_chunks S c ! nat j) = {}"
proof -
  let ?q = "S div c"
  have q: "1 \<le> ?q" using assms quot_ge_1 by simp
  have ic: "i < c" "0 \<le> j" "i \<noteq> c - 1" using assms by auto
  have "(i + 1) * ?q \<le> j * ?q" using assms q by (intro mult_right_mono) auto
  then have "(i + 1) * ?q - 1 < j * ?q" by simp
  then show ?thesis
    using new_chunks_bytes [OF assms(1-4) ic(1)] new_chunks_bytes [OF assms(1-3) ic(2) assms(6)] ic(3)
    by auto
qed

lemma new_chunks_set:
  assumes "1 \<le> c" "c \<le> S" "S < 2 ^ 63"
  shows "set (new_chunks S c) =
           (\<lambda>i. \<lparr>c_start = i * (S div c),
                  c_end = (if i = c - 1 then S - 1 else (i + 1) * (S div c) - 1),
                  c_downloaded = 0\<rparr>) ` {0..c - 1}"
proof -
  have "set (new_chunks S c) =
          (\<lambda>i. case chunk_range S c i of
                  (start, stop) \<Rightarrow> \<lparr>c_start = start, c_end = stop, c_downloaded = 0\<rparr>) ` {0..c - 1}"
    by (simp add: new_chunks_def)
  also have "\<dots> = (\<lambda>i. \<lparr>c_start = i * (S div c),
                  c_end = (if i = c - 1 then S - 1 else (i + 1) * (S div c) - 1),
                  c_downloaded = 0\<rparr>) ` {0..c - 1}"
  proof (rule image_cong [OF refl])
    fix i assume "i \<in> {0..c - 1}"
    then have "0 \<le> i" "i < c" by auto
    then show "(case chunk_range S c i of
                  (start, stop) \<Rightarrow> \<lparr>c_start = start, c_end = stop, c_downloaded = 0\<rparr>) =
               \<lparr>c_start = i * (S div c),
                  c_end = (if i = c - 1 then S - 1 else (i + 1) * (S div c) - 1),
                  c_downloaded = 0\<rparr>"
      using chunk_range_eq [OF assms] by simp
  qed
  finally show ?thesis .
qed

lemma new_chunks_union:
  assumes "1 \<le> c" "c \<le> S" "S < 2 ^ 63"
  shows "(\<Union>ch \<in> set (new_chunks S c). chunk_bytes ch) = {0..S - 1}"
proof -
  let ?q = "S div c"
  let ?e = "\<lambda>i. if i = c - 1 then S - 1 else (i + 1) * ?q - 1"
  have q: "1 \<le> ?q" using assms quot_ge_1 by simp
  have U: "(\<Union>ch \<in> set (new_chunks S c). chunk_bytes ch) = (\<Union>i \<in> {0..c - 1}. {i * ?q .. ?e i})"
    by (simp add: new_chunks_set [OF assms] chunk_bytes_def)
  have "(\<Union>i \<in> {0..c - 1}. {i * ?q .. ?e i}) = {0..S - 1}"
  proof (intro set_eqI iffI)
    fix x assume "x \<in> (\<Union>i \<in> {0..c - 1}. {i * ?q .. ?e i})"
    then obtain i where i: "0 \<le> i" "i \<le> c - 1" "i * ?q \<le> x" "x \<le> ?e i" by auto
    have "0 \<le> i * ?q" using i q by simp
    moreover have "?e i \<le> S - 1"
    proof (cases "i = c - 1")
      case True then show ?thesis by simp
    next
      case False
      then have "(i + 1) * ?q \<le> S" using mult_quot_le [of c S "i + 1"] i assms by simp
      then show ?thesis using False by simp
    qed
    ultimately show "x \<in> {0..S - 1}" using i by auto
  next
    fix x assume "x \<in> {0..S - 1}"
    then have x: "0 \<le> x" "x \<le> S - 1" by auto
    let ?i = "min (x div ?q) (c - 1)"
    have i0: "0 \<le> ?i" using x q assms by (simp add: pos_imp_zdiv_nonneg_iff)
    have lo: "?i * ?q \<le> x"
    proof -
      have "?i * ?q \<le> (x div ?q) * ?q" using q by (intro mult_right_mono) auto
      also have "\<dots> \<le> x"
      proof -
        have m: "(x div ?q) * ?q + x mod ?q = x" by (rule div_mult_mod_eq)
        have "0 \<le> x mod ?q" using q by simp
        then show ?thesis using m by linarith
      qed
      finally show ?thesis .
    qed
    have hi: "x \<le> ?e ?i"
    proof (cases "x div ?q < c - 1")
      case True
      then have eq: "?i = x div ?q" by simp
      have m: "(x div ?q) * ?q + x mod ?q = x" by (rule div_mult_mod_eq)
      have "x mod ?q < ?q" using q by simp
      then have "x < (x div ?q) * ?q + ?q" using m by linarith
      then have "x < (x div ?q + 1) * ?q" by (simp add: algebra_simps)
      then show ?thesis using True eq by simp
    next
      case False
      then have "?i = c - 1" by simp
      then show ?thesis using x by simp
    qed
    show "x \<in> (\<Union>i \<in> {0..c - 1}. {i * ?q .. ?e i})"
      using i0 lo hi by (intro UN_I [of ?i]) auto
  qed
  with U show ?thesis by simp
qed

lemma downloadWithChunks_setup_ok:
  assumes "0 < Chunks (download job)"
  shows "downloadWithChunks_setup None None job =
           (Running, job\<lparr>chunks := chunks job @
                             new_chunks (Size (download job)) (Chunks (download job))\<rparr>)"
  using assms by (simp add: downloadWithChunks_setup_def Let_def)

text \<open>
  Claim C5. A job whose record has size \<open>S\<close> and chunk count \<open>c\<close> with
  \<open>1 \<le> c \<le> S\<close> (\<open>S\<close> an \<open>int64\<close>), and whose file can be created and truncated,
  leaves the setup of the ranged download running, with its record and its
  earlier chunks untouched and exactly \<open>c\<close> new chunks appended to \<open>job.chunks\<close>: new
  chunk \<open>i < c - 1\<close> owns \<open>[i * (S div c), (i + 1) * (S div c) - 1]\<close>, the last one
  owns \<open>[(c - 1) * (S div c), S - 1]\<close> and so takes the remainder; each starts with
  nothing downloaded; two different new chunks share no byte, and together they
  own exactly \<open>[0, S - 1]\<close>.
\<close>

theorem chunk_ranges_partition:
  assumes "Size (download job) = S" and "Chunks (download job) = c"
    and "1 \<le> c" and "c \<le> S" and "S < 2 ^ 63"
  shows "(let job1 = snd (downloadWithChunks_setup None None job);
              cs = drop (length (chunks job)) (chunks job1)
          in fst (downloadWithChunks_setup None None job) = Running \<and>
             download job1 = download job \<and>
             take (length (chunks job)) (chunks job1) = chunks job \<and>
             length cs = nat c \<and>
             (\<forall>i. 0 \<le> i \<and> i < c - 1 \<longrightarrow>
                c_start (cs ! nat i) = i * (S div c) \<and>
                c_end (cs ! nat i) = (i + 1) * (S div c) - 1) \<and>
             c_start (cs ! nat (c - 1)) = (c - 1) * (S div c) \<and>
             c_end (cs ! nat (c - 1)) = S - 1 \<and>
             (\<forall>ch \<in> set cs. c_downloaded ch = 0) \<and>
             (\<forall>i j. 0 \<le> i \<and> i < j \<and> j < c \<longrightarrow>
                chunk_bytes (cs ! nat i) \<inter> chunk_bytes (cs ! nat j) = {}) \<and>
             (\<Union>ch \<in> set cs. chunk_bytes ch) = {0..S - 1})"
proof -
  have b: "1 \<le> c" "c \<le> S" "S < 2 ^ 63" using assms by simp_all
  have pos: "0 < Chunks (download job)" using assms by simp
  have su: "downloadWithChunks_setup None None job =
              (Running, job\<lparr>chunks := chunks job @ new_chunks S c\<rparr>)"
    using downloadWithChunks_setup_ok [OF pos] assms by simp
  have z: "\<forall>ch \<in> set (new_chunks S c). c_downloaded ch = 0"
    by (auto simp: new_chunks_def split: prod.splits)
  have "fst (downloadWithChunks_setup None None job) = Running \<and>
        download (job\<lparr>chunks := chunks job @ new_chunks S c\<rparr>) = download job \<and>
        take (length (chunks job)) (chunks job @ new_chunks S c) = chunks job \<and>
        length (new_chunks S c) = nat c \<and>
        (\<forall>i. 0 \<le> i \<and> i < c - 1 \<longrightarrow>
           c_start (new_chunks S c ! nat i) = i * (S div c) \<and>
           c_end (new_chunks S c ! nat i) = (i + 1) * (S div c) - 1) \<and>
        c_start (new_chunks S c ! nat (c - 1)) = (c - 1) * (S div c) \<and>
        c_end (new_chunks S c ! nat (c - 1)) = S - 1 \<and>
        (\<forall>ch \<in> set (new_chunks S c). c_downloaded ch = 0) \<and>
        (\<forall>i j. 0 \<le> i \<and> i < j \<and> j < c \<longrightarrow>
           chunk_bytes (new_chunks S c ! nat i) \<inter> chunk_bytes (new_chunks S c ! nat j) = {}) \<and>
        (\<Union>ch \<in> set (new_chunks S c). chunk_bytes ch) = {0..S - 1}"
  proof (intro conjI allI impI)
    show "fst (downloadWithChunks_setup None None job) = Running" by (simp add: su)
    show "download (job\<lparr>chunks := chunks job @ new_chunks S c\<rparr>) = download job" by simp
    show "take (length (chunks job)) (chunks job @ new_chunks S c) = chunks job" by simp
    show "length (new_chunks S c) = nat c" by (rule new_chunks_length)
    show "\<forall>ch \<in> set (new_chunks S c). c_downloaded ch = 0" by (rule z)
    show "(\<Union>ch \<in> set (new_chunks S c). chunk_bytes ch) = {0..S - 1}"
      by (rule new_chunks_union [OF b])
  next
    fix i assume "0 \<le> i \<and> i < c - 1"
    then have i: "0 \<le> i" "i < c" "i \<noteq> c - 1" by auto
    show "c_start (new_chunks S c ! nat i) = i * (S div c)"
      using new_chunks_nth [OF b i(1,2)] by simp
    show "c_end (new_chunks S c ! nat i) = (i + 1) * (S div c) - 1"
      using new_chunks_nth [OF b i(1,2)] i(3) by simp
  next
    have l: "0 \<le> c - 1" "c - 1 < c" using b by auto
    show "c_start (new_chunks S c ! nat (c - 1)) = (c - 1) * (S div c)"
      using new_chunks_nth [OF b l] by simp
    show "c_end (new_chunks S c ! nat (c - 1)) = S - 1"
      using new_chunks_nth [OF b l] by simp
  next
    fix i j assume "0 \<le> i \<and> i < j \<and> j < c"
    then show "chunk_bytes (new_chunks S c ! nat i) \<inter> chunk_bytes (new_chunks S c ! nat j) = {}"
      using new_chunks_disjoint [OF b] by blast
  qed
  then show ?thesis by (simp add: su Let_def)
qed

theorem chunk_ranges_partition_witness:
  "Size (download (zero_job\<lparr>download := example_record 0 10 StatusDownloading\<rparr>)) = 10 \<and>
   Chunks (download (zero_job\<lparr>download := example_record 0 10 StatusDownloading\<rparr>)) = 4 \<and>
   (1::int) \<le> 4 \<and> (4::int) \<le> 10 \<and> (10::int) < 2 ^ 63 \<and>
   fst (downloadWithChunks_setup None None
          (zero_job\<lparr>download := example_record 0 10 StatusDownloading\<rparr>)) = Running \<and>
   chunks (snd (downloadWithChunks_setup None None
                  (zero_job\<lparr>download := example_record 0 10 StatusDownloading\<rparr>))) =
     [\<lparr>c_start = 0, c_end = 1, c_downloaded = 0\<rparr>,
      \<lparr>c_start = 2, c_end = 3, c_downloaded = 0\<rparr>,
      \<lparr>c_start = 4, c_end = 5, c_downloaded = 0\<rparr>,
      \<lparr>c_start = 6, c_end = 9, c_downloaded = 0\<rparr>] \<and>
   (\<Union>ch \<in> set (chunks (snd (downloadWithChunks_setup None None
                  (zero_job\<lparr>download := example_record 0 10 StatusDownloading\<rparr>)))).
      chunk_bytes ch) = {0..9}"
proof -
  let ?job = "zero_job\<lparr>download := example_record 0 10 StatusDownloading\<rparr>"
  have h: "Size (download ?job) = 10" "Chunks (download ?job) = 4"
    "(1::int) \<le> 4" "(4::int) \<le> 10" "(10::int) < 2 ^ 63"
    by (simp_all add: example_record_def)
  have e: "chunks ?job = []" by (simp add: zero_job_def)
  have w: "wrap64 0 = 0" "wrap64 1 = 1" "wrap64 2 = 2" "wrap64 3 = 3" "wrap64 4 = 4"
    "wrap64 5 = 5" "wrap64 6 = 6" "wrap64 7 = 7" "wrap64 8 = 8" "wrap64 9 = 9"
    by (simp_all add: wrap64_def)
  have u: "[0..(3::int)] = [0, 1, 2, 3]" by (simp add: upto_rec1)
  have cs: "chunks (snd (downloadWithChunks_setup None None ?job)) =
     [\<lparr>c_start = 0, c_end = 1, c_downloaded = 0\<rparr>,
      \<lparr>c_start = 2, c_end = 3, c_downloaded = 0\<rparr>,
      \<lparr>c_start = 4, c_end = 5, c_downloaded = 0\<rparr>,
      \<lparr>c_start = 6, c_end = 9, c_downloaded = 0\<rparr>]"
    by (simp add: downloadWithChunks_setup_def Let_def example_record_def zero_job_def
        new_chunks_def chunk_range_def go_quot_def u w)
  show ?thesis
    using h chunk_ranges_partition [OF h, unfolded Let_def e] cs by simp
qed

section \<open>The store: what insert keeps, and the round trip of a loaded record\<close>

lemma largest_rowid_mem: "largest_rowid es = Some m \<Longrightarrow> m \<in> fst ` set es"
proof (induction es arbitrary: m rule: largest_rowid.induct)
  case 1
  then show ?case by simp
next
  case (2 j q rest)
  show ?case
  proof (cases "largest_rowid rest")
    case None
    with "2.prems" show ?thesis by simp
  next
    case (Some n)
    from "2.IH" [OF Some] have n: "n \<in> fst ` set rest" .
    from "2.prems" Some have "m = max j n" by simp
    then have "m = j \<or> m = n" by (simp add: max_def)
    with n show ?thesis by auto
  qed
qed

lemma new_rowid_next:
  assumes "new_rowid d = Inr i"
  shows "i = seq d + 1 \<or> i = 1 \<or> i - 1 \<in> fst ` set (entries d)"
proof (cases "largest_rowid (entries d)")
  case None
  with assms show ?thesis by (auto simp: new_rowid_def max_def split: if_splits)
next
  case (Some m)
  then have m: "m \<in> fst ` set (entries d)" by (rule largest_rowid_mem)
  from assms Some have "i = m + 1 \<or> i = seq d + 1"
    by (auto simp: new_rowid_def max_def split: if_splits)
  then show ?thesis
  proof
    assume "i = m + 1"
    then have "i - 1 = m" by simp
    with m show ?thesis by simp
  next
    assume "i = seq d + 1"
    then show ?thesis by simp
  qed
qed

lemma loaded_row:
  assumes "GetDownload d ident = Inr l"
  obtains r where "rows d ident = Some r" and "set_columns l r = r" and "ID l = ident"
proof -
  from assms obtain r e where r: "rows d ident = Some r" "col_error r = Some e"
    by (auto simp: GetDownload_def split: option.splits)
  from assms r have l: "l = \<lparr>ID = ident, URL = col_url r, Filename = col_filename r,
                    Path = col_path r, Size = col_size r,
                    Downloaded = col_downloaded r, Status = col_status r,
                    Speed = col_speed r, Progress = col_progress r,
                    CreatedAt = col_created_at r, StartedAt = col_started_at r,
                    CompletedAt = col_completed_at r, Error = e,
                    Chunks = col_chunks r\<rparr>"
    by (simp add: GetDownload_def)
  have "set_columns l r = r" using r(2) by (simp add: set_columns_def l)
  moreover have "ID l = ident" by (simp add: l)
  ultimately show thesis using r(1) that by blast
qed

lemma Update_loaded_rows:
  assumes "GetDownload d ident = Inr l"
  shows "rows (UpdateDownload d l) = rows d"
proof
  fix k
  from assms obtain r where r: "rows d ident = Some r" "set_columns l r = r" "ID l = ident"
    by (rule loaded_row)
  show "rows (UpdateDownload d l) k = rows d k"
    using r by (simp add: rows_UpdateDownload)
qed

lemma Update_loaded:
  assumes "GetDownload d ident = Inr l" and "distinct (map fst (entries d))"
  shows "UpdateDownload d l = d"
proof -
  from assms(1) obtain r where r: "rows d ident = Some r" "set_columns l r = r" "ID l = ident"
    by (rule loaded_row)
  have "(case e of (k, x) \<Rightarrow> if k = ID l then (k, set_columns l x) else (k, x)) = e"
    if "e \<in> set (entries d)" for e
  proof -
    obtain k x where e: "e = (k, x)" by (cases e)
    show ?thesis
    proof (cases "k = ID l")
      case True
      from that e assms(2) have "map_of (entries d) k = Some x" by simp
      with r True have "x = r" by (simp add: rows_def)
      with r True e show ?thesis by simp
    next
      case False
      with e show ?thesis by simp
    qed
  qed
  then have "map (\<lambda>(k, x). if k = ID l then (k, set_columns l x) else (k, x)) (entries d) =
               entries d"
    by (intro map_idI) auto
  then show ?thesis by (simp add: UpdateDownload_def)
qed

text \<open>
  A row fresh from \<open>SaveDownload\<close> has NULL in \<open>error\<close>, which \<open>GetDownload\<close>
  cannot scan: loading a record right after inserting it fails.
\<close>

lemma Get_after_Save:
  assumes "SaveDownload d r = (d1, Inr i)"
  shows "GetDownload d1 i = Inl ErrScanNull"
proof -
  from assms have n: "new_rowid d = Inr i"
    by (auto simp: SaveDownload_def Let_def split: sum.splits)
  from assms have "d1 = fst (SaveDownload d r)" by simp
  then show ?thesis by (simp add: GetDownload_def rows_SaveDownload [OF n])
qed

text \<open>
  Claim C6, as the code has it. Insert assigns the next id: an id above every
  id handed out before and above every id in the table, with none skipped (it
  follows the last id handed out or the largest id of the table, or is 1), and
  records it as handed out; when the ids are used up it fails and leaves the
  table alone. Under the new id it stores url, filename, path, size,
  downloaded, status, chunks and created_at as the record gives them; speed and
  progress are stored as 0 and the two nullable timestamps and error as NULL,
  whatever the record carried; the other rows stay as they are. For a row that
  get loads, persisting the loaded record with update changes no row (and
  nothing at all in a table whose ids are distinct) and loading it again gives
  the same record, field by field.
\<close>

theorem store_round_trip:
  "(new_rowid d = Inr i \<longrightarrow>
      snd (SaveDownload d r) = Inr i \<and>
      seq d < i \<and> (\<forall>k \<in> fst ` set (entries d). k < i) \<and> rows d i = None \<and>
      (i = seq d + 1 \<or> i = 1 \<or> i - 1 \<in> fst ` set (entries d)) \<and>
      seq (fst (SaveDownload d r)) = i \<and>
      rows (fst (SaveDownload d r)) =
        (rows d)(i \<mapsto>
          \<lparr>col_url = URL r, col_filename = Filename r, col_path = Path r,
           col_size = Size r, col_downloaded = Downloaded r, col_status = Status r,
           col_speed = 0, col_progress = 0, col_created_at = CreatedAt r,
           col_started_at = None, col_completed_at = None, col_error = None,
           col_chunks = Chunks r\<rparr>)) \<and>
   (new_rowid d = Inl err \<longrightarrow> SaveDownload d r = (d, Inl err)) \<and>
   (GetDownload d ident = Inr l \<longrightarrow>
      rows (UpdateDownload d l) = rows d \<and> seq (UpdateDownload d l) = seq d \<and>
      GetDownload (UpdateDownload d l) ident = Inr l \<and>
      (distinct (map fst (entries d)) \<longrightarrow> UpdateDownload d l = d))"
proof (intro conjI impI ballI)
  assume n: "new_rowid d = Inr i"
  show "snd (SaveDownload d r) = Inr i" by (simp add: SaveDownload_new [OF n])
  show "seq d < i" by (rule new_rowid_above(1) [OF n])
  show "rows d i = None" by (rule new_rowid_above(3) [OF n])
  show "i = seq d + 1 \<or> i = 1 \<or> i - 1 \<in> fst ` set (entries d)" by (rule new_rowid_next [OF n])
  show "seq (fst (SaveDownload d r)) = i" by (simp add: SaveDownload_new [OF n])
  show "rows (fst (SaveDownload d r)) =
        (rows d)(i \<mapsto>
          \<lparr>col_url = URL r, col_filename = Filename r, col_path = Path r,
           col_size = Size r, col_downloaded = Downloaded r, col_status = Status r,
           col_speed = 0, col_progress = 0, col_created_at = CreatedAt r,
           col_started_at = None, col_completed_at = None, col_error = None,
           col_chunks = Chunks r\<rparr>)"
    by (rule rows_SaveDownload [OF n])
  fix k assume "k \<in> fst ` set (entries d)"
  then obtain x where "(k, x) \<in> set (entries d)" by auto
  then show "k < i" by (rule new_rowid_above(2) [OF n])
next
  assume "new_rowid d = Inl err"
  then show "SaveDownload d r = (d, Inl err)" by (simp add: SaveDownload_def)
next
  assume g: "GetDownload d ident = Inr l"
  show u: "rows (UpdateDownload d l) = rows d" using g by (rule Update_loaded_rows)
  show "seq (UpdateDownload d l) = seq d" by (rule seq_UpdateDownload)
  show "GetDownload (UpdateDownload d l) ident = Inr l"
    using g by (simp add: GetDownload_def u)
  assume "distinct (map fst (entries d))"
  with g show "UpdateDownload d l = d" by (rule Update_loaded)
qed

theorem store_round_trip_witness:
  "new_rowid example_db = Inr 4 \<and>
   snd (SaveDownload example_db (example_record 0 1000 StatusPending)) = Inr 4 \<and>
   rows example_db 4 = None \<and>
   seq (fst (SaveDownload example_db (example_record 0 1000 StatusPending))) = 4 \<and>
   map_option col_size
     (rows (fst (SaveDownload example_db (example_record 0 1000 StatusPending))) 4) =
     Some 1000 \<and>
   new_rowid \<lparr>entries = [], seq = 2 ^ 63 - 1\<rparr> = Inl ErrTableFull \<and>
   SaveDownload \<lparr>entries = [], seq = 2 ^ 63 - 1\<rparr> (example_record 0 1000 StatusPending) =
     (\<lparr>entries = [], seq = 2 ^ 63 - 1\<rparr>, Inl ErrTableFull) \<and>
   GetDownload example_db 0 =
     Inr ((example_record 0 1000 StatusPaused)\<lparr>Downloaded := 600\<rparr>) \<and>
   distinct (map fst (entries example_db)) \<and>
   UpdateDownload example_db ((example_record 0 1000 StatusPaused)\<lparr>Downloaded := 600\<rparr>) =
     example_db \<and>
   GetDownload
     (UpdateDownload example_db ((example_record 0 1000 StatusPaused)\<lparr>Downloaded := 600\<rparr>)) 0 =
     Inr ((example_record 0 1000 StatusPaused)\<lparr>Downloaded := 600\<rparr>)"
proof -
  let ?full = "\<lparr>entries = [], seq = 2 ^ 63 - 1\<rparr>"
  let ?l = "(example_record 0 1000 StatusPaused)\<lparr>Downloaded := 600\<rparr>"
  have n: "new_rowid example_db = Inr 4"
    by (simp add: new_rowid_def example_db_def max_rowid_def)
  have f: "new_rowid ?full = Inl ErrTableFull"
    by (simp add: new_rowid_def max_rowid_def)
  have g: "GetDownload example_db 0 = Inr ?l"
    by (simp add: GetDownload_def rows_def example_db_def example_row_def example_record_def)
  have dk: "distinct (map fst (entries example_db))"
    by (simp add: example_db_def)
  have a: "snd (SaveDownload example_db (example_record 0 1000 StatusPending)) = Inr 4 \<and>
      rows example_db 4 = None \<and>
      seq (fst (SaveDownload example_db (example_record 0 1000 StatusPending))) = 4 \<and>
      map_option col_size
        (rows (fst (SaveDownload example_db (example_record 0 1000 StatusPending))) 4) =
        Some 1000"
    using n store_round_trip [where d = example_db and i = 4
        and r = "example_record 0 1000 StatusPending", THEN conjunct1]
    by (simp add: example_record_def)
  have b: "SaveDownload ?full (example_record 0 1000 StatusPending) = (?full, Inl ErrTableFull)"
    using f store_round_trip [where d = ?full and err = ErrTableFull
        and r = "example_record 0 1000 StatusPending", THEN conjunct2, THEN conjunct1]
    by simp
  have c: "UpdateDownload example_db ?l = example_db \<and>
      GetDownload (UpdateDownload example_db ?l) 0 = Inr ?l"
    using g dk store_round_trip [where d = example_db and ident = 0 and l = ?l,
        THEN conjunct2, THEN conjunct2]
    by simp
  show ?thesis using n f g dk a b c by simp
qed

text \<open>
  The claim as written fails at a record inserted with speed 5 and progress
  50: the row holds 0 in both columns, and loading the row returns an error
  instead of the record.
\<close>

theorem store_round_trip_counterexample:
  "Speed ((example_record 0 1000 StatusPending)\<lparr>Speed := 5, Progress := 50\<rparr>) = 5 \<and>
   Progress ((example_record 0 1000 StatusPending)\<lparr>Speed := 5, Progress := 50\<rparr>) = 50 \<and>
   snd (SaveDownload empty_db
          ((example_record 0 1000 StatusPending)\<lparr>Speed := 5, Progress := 50\<rparr>)) = Inr 1 \<and>
   map_option col_speed
     (rows (fst (SaveDownload empty_db
          ((example_record 0 1000 StatusPending)\<lparr>Speed := 5, Progress := 50\<rparr>))) 1) = Some 0 \<and>
   map_option col_progress
     (rows (fst (SaveDownload empty_db
          ((example_record 0 1000 StatusPending)\<lparr>Speed := 5, Progress := 50\<rparr>))) 1) = Some 0 \<and>
   GetDownload (fst (SaveDownload empty_db
          ((example_record 0 1000 StatusPending)\<lparr>Speed := 5, Progress := 50\<rparr>))) 1 =
     Inl ErrScanNull"
  by (simp add: SaveDownload_def new_rowid_def max_rowid_def GetDownload_def rows_def Let_def
      empty_db_def example_record_def)

section \<open>The rate limiter: period of the ticker, one permit at most, one read per permit\<close>

lemma ticker_period_below_1024:
  "0 \<le> m \<Longrightarrow> m < 1024 \<Longrightarrow> ticker_period m = Inl PanicDivideByZero"
  by (simp add: ticker_period_def go_quot_def)

text \<open>
  Claim C7, as the code has it. For a limit \<open>m\<close> of at least 1024 bytes per
  second (and no more than the ticker can serve), the ticker's period is
  \<open>10^9 div (m div 1024)\<close> nanoseconds: the rate is \<open>m / 1024\<close> rounded down, not
  up. The channel never holds more than the one permit of the first tick since it
  was emptied, a read on the empty channel has not returned, and a read that
  finds a permit takes it and calls the underlying reader once with the
  caller's buffer.
\<close>

theorem rate_limiter_period:
  "(1024 \<le> m \<and> m div 1024 \<le> 1000000000 \<longrightarrow>
      ticker_period m = Inr (1000000000 div (m div 1024)) \<and>
      0 < 1000000000 div (m div 1024)) \<and>
   limiter_tick t2 (limiter_tick t1 None) = Some t1 \<and>
   limiter_tick t1 limiter \<noteq> None \<and>
   rateLimitedReader_Read rd None p = None \<and>
   rateLimitedReader_Read rd (limiter_tick t1 None) p = Some (None, rd p)"
proof (intro conjI impI)
  assume h: "1024 \<le> m \<and> m div 1024 \<le> 1000000000"
  then have k: "0 < m div 1024" using pos_imp_zdiv_pos_iff [of 1024 m] by simp
  have g: "go_quot m 1024 = m div 1024" using h by (simp add: go_quot_pos)
  have g2: "go_quot 1000000000 (m div 1024) = 1000000000 div (m div 1024)"
    using k by (simp add: go_quot_pos)
  show p: "0 < 1000000000 div (m div 1024)"
    using h k pos_imp_zdiv_pos_iff [of "m div 1024" 1000000000] by simp
  show "ticker_period m = Inr (1000000000 div (m div 1024))"
    using k p by (simp add: ticker_period_def g g2 Let_def)
next
  show "limiter_tick t2 (limiter_tick t1 None) = Some t1"
    by (simp add: limiter_tick_def)
  show "limiter_tick t1 limiter \<noteq> None"
    by (simp add: limiter_tick_def split: option.splits)
  show "rateLimitedReader_Read rd None p = None"
    by (simp add: rateLimitedReader_Read_def)
  show "rateLimitedReader_Read rd (limiter_tick t1 None) p = Some (None, rd p)"
    by (simp add: rateLimitedReader_Read_def limiter_tick_def)
qed

theorem rate_limiter_period_witness:
  "(1024::int) \<le> 65536 \<and> (65536::int) div 1024 \<le> 1000000000 \<and>
   ticker_period 65536 = Inr 15625000"
  using rate_limiter_period [of 65536, THEN conjunct1] by simp

text \<open>
  The claim as written fails at 1500 bytes per second: rounded up, 1500 / 1024
  is 2, and 2 Hz is a period of 500000000 ns; the ticker's period is
  1000000000 ns, one permit per second.
\<close>

theorem rate_limiter_period_counterexample:
  "\<lceil>(1500 :: real) / 1024\<rceil> = 2 \<and>
   (1000000000 :: int) div \<lceil>(1500 :: real) / 1024\<rceil> = 500000000 \<and>
   ticker_period 1500 = Inr 1000000000"
proof -
  have c: "\<lceil>(1500 :: real) / 1024\<rceil> = 2" by (simp add: ceiling_eq_iff)
  have t: "ticker_period 1500 = Inr 1000000000"
    by (simp add: ticker_period_def go_quot_def)
  show ?thesis using t by (simp add: c)
qed

section \<open>The statistics loop\<close>

text \<open>
  Claim C8, as the code has it. For a job whose record is Downloading, the
  body of the statistics loop sets progress to \<open>downloaded / size * 100\<close> when the
  size is positive (and keeps it otherwise), sets speed to \<open>downloaded\<close> divided
  by the seconds since the job's previous statistics update (\<open>lastUpdate\<close>,
  at first the time the job was created), provided that time is set and in the
  past, then sets \<open>lastUpdate\<close> to now, persists the record and announces it. A job
  in another status is left alone, and a tick runs the body for each job of the
  registry.
\<close>

theorem updateStats_job_effect:
  "(Status (download (jobs dm a)) = StatusDownloading \<longrightarrow>
      (let job = jobs dm a; d = download job;
           dm' = updateStats_job dm a now; d' = download (jobs dm' a)
       in Progress d' =
            (if Size d > 0 then real_of_int (Downloaded d) / real_of_int (Size d) * 100
             else Progress d) \<and>
          Speed d' =
            (if lastUpdate job \<noteq> 0 \<and> lastUpdate job < now
             then go_int64_of (real_of_int (Downloaded d) / Seconds (now - lastUpdate job))
             else Speed d) \<and>
          lastUpdate (jobs dm' a) = now \<and>
          db dm' = UpdateDownload (db dm) d' \<and>
          events dm' = events dm @ [d'])) \<and>
   (Status (download (jobs dm a)) \<noteq> StatusDownloading \<longrightarrow> updateStats_job dm a now = dm) \<and>
   (downloads dm ident = Some a \<longrightarrow>
      updateStats_tick ((ident, now) # rest) dm = updateStats_tick rest (updateStats_job dm a now))"
  by (simp add: updateStats_job_def Let_def notifyCallbacks_def updateDownload_def)

theorem updateStats_job_effect_witness:
  "Status (download (jobs example_started 0)) = StatusDownloading \<and>
   Progress (download (jobs (updateStats_job example_started 0 11000000000) 0)) = 60 \<and>
   Speed (download (jobs (updateStats_job example_started 0 11000000000) 0)) = 600 \<and>
   lastUpdate (jobs (updateStats_job example_started 0 11000000000) 0) = 11000000000 \<and>
   Status (download (jobs (fst (PauseDownload example_started 0)) 0)) \<noteq> StatusDownloading \<and>
   updateStats_job (fst (PauseDownload example_started 0)) 0 11000000000 =
     fst (PauseDownload example_started 0) \<and>
   downloads example_started 0 = Some 0 \<and>
   updateStats_tick [(0, 11000000000)] example_started =
     updateStats_job example_started 0 11000000000"
proof -
  have s: "Status (download (jobs example_started 0)) = StatusDownloading"
    by (simp add: example_started_job example_record_def)
  have p: "Status (download (jobs (fst (PauseDownload example_started 0)) 0)) \<noteq> StatusDownloading"
    by (simp add: PauseDownload_def example_started_eq Let_def notifyCallbacks_def
        updateDownload_def status_defs)
  have r: "downloads example_started 0 = Some 0" by (simp add: example_started_eq)
  have a: "Progress (download (jobs (updateStats_job example_started 0 11000000000) 0)) = 60 \<and>
   Speed (download (jobs (updateStats_job example_started 0 11000000000) 0)) = 600 \<and>
   lastUpdate (jobs (updateStats_job example_started 0 11000000000) 0) = 11000000000"
    using s updateStats_job_effect [where dm = example_started and a = 0
        and now = 11000000000, THEN conjunct1]
    by (simp add: example_started_job example_record_def Let_def Seconds_def go_int64_of_def)
  have b: "updateStats_job (fst (PauseDownload example_started 0)) 0 11000000000 =
     fst (PauseDownload example_started 0)"
    using p updateStats_job_effect [where dm = "fst (PauseDownload example_started 0)"
        and a = 0 and now = 11000000000, THEN conjunct2, THEN conjunct1]
    by simp
  have c: "updateStats_tick [(0, 11000000000)] example_started =
     updateStats_job example_started 0 11000000000"
    using r updateStats_job_effect [where dm = example_started and a = 0 and ident = 0
        and now = 11000000000 and rest = "[]", THEN conjunct2, THEN conjunct2]
    by simp
  show ?thesis using s p r a b c by simp
qed

text \<open>
  The claim as written fails on the second tick of a job started at second 10
  with 600 bytes counted: at second 12 the time since \<open>started_at\<close> is 2 s, which
  would give 300, but the speed is set to 600, the counter divided by the one
  second since the tick before.
\<close>

theorem updateStats_speed_counterexample:
  "StartedAt (download (jobs example_started 0)) = Some 10000000000 \<and>
   Downloaded (download (jobs (updateStats_job example_started 0 11000000000) 0)) = 600 \<and>
   go_int64_of (600 / Seconds (12000000000 - 10000000000)) = 300 \<and>
   Speed (download (jobs (updateStats_job
            (updateStats_job example_started 0 11000000000) 0 12000000000) 0)) = 600"
  by (simp add: updateStats_job_def example_started_eq example_record_def status_defs
      Let_def Seconds_def go_int64_of_def notifyCallbacks_def updateDownload_def)


section \<open>The queue is first-in first-out over pending records\<close>

lemma first_pending_None:
  "(first_pending i xs = None) = (\<forall>x \<in> set xs. Status x \<noteq> StatusPending)"
  by (induction xs arbitrary: i) auto

lemma first_pending_split:
  assumes "\<forall>x \<in> set xs. Status x \<noteq> StatusPending" and "Status d = StatusPending"
  shows "first_pending i (xs @ d # ys) = Some (i + length xs)"
  using assms by (induction xs arbitrary: i) auto

lemma Queue_Next_none:
  assumes "\<forall>x \<in> set items. Status x \<noteq> StatusPending"
  shows "Queue_Next items = (None, items)"
  using assms first_pending_None [of 0 items] by (simp add: Queue_Next_def)

lemma Queue_Next_first:
  assumes "\<forall>x \<in> set xs. Status x \<noteq> StatusPending" and "Status d = StatusPending"
  shows "Queue_Next (xs @ d # ys) = (Some d, xs @ ys)"
  using first_pending_split [OF assms, of 0 ys] by (simp add: Queue_Next_def)

text \<open>
  Claim C9. \<open>Next\<close> returns and removes the earliest-added pending record, leaves
  the records it skips in place and in order, and returns nothing (leaving the
  queue as it is) when no record is pending. So records \<open>a\<close>, \<open>b\<close>, \<open>c\<close> added
  in this order while pending leave in this order.
\<close>

theorem Queue_Next_fifo:
  "((\<forall>x \<in> set items. Status x \<noteq> StatusPending) \<longrightarrow> Queue_Next items = (None, items)) \<and>
   ((\<forall>x \<in> set xs. Status x \<noteq> StatusPending) \<and> Status d = StatusPending \<longrightarrow>
      Queue_Next (xs @ d # ys) = (Some d, xs @ ys)) \<and>
   (Status a = StatusPending \<and> Status b = StatusPending \<and> Status c = StatusPending \<and>
    (\<forall>x \<in> set items. Status x \<noteq> StatusPending) \<longrightarrow>
      (let q0 = Queue_Add (Queue_Add (Queue_Add items a) b) c;
           (r1, q1) = Queue_Next q0; (r2, q2) = Queue_Next q1; (r3, q3) = Queue_Next q2
       in r1 = Some a \<and> r2 = Some b \<and> r3 = Some c \<and> q3 = items \<and>
          Queue_Next q3 = (None, items)))"
proof (intro conjI impI)
  assume "\<forall>x \<in> set items. Status x \<noteq> StatusPending"
  then show "Queue_Next items = (None, items)" by (rule Queue_Next_none)
next
  assume "(\<forall>x \<in> set xs. Status x \<noteq> StatusPending) \<and> Status d = StatusPending"
  then show "Queue_Next (xs @ d # ys) = (Some d, xs @ ys)"
    by (simp add: Queue_Next_first)
next
  assume h: "Status a = StatusPending \<and> Status b = StatusPending \<and> Status c = StatusPending \<and>
    (\<forall>x \<in> set items. Status x \<noteq> StatusPending)"
  then have np: "\<forall>x \<in> set items. Status x \<noteq> StatusPending" by simp
  have q0: "Queue_Add (Queue_Add (Queue_Add items a) b) c = items @ a # [b, c]"
    by (simp add: Queue_Add_def)
  have n1: "Queue_Next (items @ a # [b, c]) = (Some a, items @ [b, c])"
    using Queue_Next_first [OF np, of a "[b, c]"] h by simp
  have n2: "Queue_Next (items @ b # [c]) = (Some b, items @ [c])"
    using Queue_Next_first [OF np, of b "[c]"] h by simp
  have n3: "Queue_Next (items @ c # []) = (Some c, items @ [])"
    using Queue_Next_first [OF np, of c "[]"] h by blast
  have n4: "Queue_Next items = (None, items)"
    using np by (rule Queue_Next_none)
  show "let q0 = Queue_Add (Queue_Add (Queue_Add items a) b) c;
           (r1, q1) = Queue_Next q0; (r2, q2) = Queue_Next q1; (r3, q3) = Queue_Next q2
       in r1 = Some a \<and> r2 = Some b \<and> r3 = Some c \<and> q3 = items \<and>
          Queue_Next q3 = (None, items)"
    using n1 n2 n3 n4 by (simp add: q0)
qed

theorem Queue_Next_fifo_witness:
  "Queue_Next [example_record 9 10 StatusPaused] = (None, [example_record 9 10 StatusPaused]) \<and>
   Queue_Next ([example_record 9 10 StatusPaused] @ example_record 1 10 StatusPending #
                 [example_record 2 10 StatusPending]) =
     (Some (example_record 1 10 StatusPending),
      [example_record 9 10 StatusPaused] @ [example_record 2 10 StatusPending]) \<and>
   (let q0 = Queue_Add (Queue_Add (Queue_Add [example_record 9 10 StatusPaused]
                (example_record 1 10 StatusPending)) (example_record 2 10 StatusPending))
                (example_record 3 10 StatusPending);
        (r1, q1) = Queue_Next q0; (r2, q2) = Queue_Next q1; (r3, q3) = Queue_Next q2
    in r1 = Some (example_record 1 10 StatusPending) \<and>
       r2 = Some (example_record 2 10 StatusPending) \<and>
       r3 = Some (example_record 3 10 StatusPending) \<and>
       q3 = [example_record 9 10 StatusPaused] \<and>
       Queue_Next q3 = (None, [example_record 9 10 StatusPaused]))"
  using Queue_Next_fifo [of "[example_record 9 10 StatusPaused]"
      "[example_record 9 10 StatusPaused]" "example_record 1 10 StatusPending"
      "[example_record 2 10 StatusPending]" "example_record 1 10 StatusPending"
      "example_record 2 10 StatusPending" "example_record 3 10 StatusPending"]
  by (simp add: example_record_def status_defs)

section \<open>Direct starts are not bounded by the concurrency budget\<close>







end
